theory Spec2Isabelle
  imports Complex_Main
begin

section \<open>The C type double\<close>

text \<open>
  Every quantity of \<^verbatim>\<open>higgs_king.h\<close> and \<^verbatim>\<open>free_all.h\<close> is a C \<^verbatim>\<open>double\<close>.
  The sources test \<^verbatim>\<open>isnan\<close> and \<^verbatim>\<open>isinf\<close> and compare values that may be NaN,
  so the special values are part of the model: a double is a real number, one of
  the two infinities, or NaN, and zero carries no sign.  The arithmetic on the special
  values follows IEEE 754.  On finite values the operations \<open>d_add\<close>, \<open>d_sub\<close>,
  \<open>d_mul\<close>, \<open>d_div\<close> and \<open>d_sqrt\<close> below give the exact result, and \<open>fl\<close> rounds a
  result to the nearest double (binary64, ties to even, overflow to an infinity); an
  operation of C is \<open>fl\<close> after the exact operation.  \<^verbatim>\<open>monitor_field_stability\<close>,
  whose answer is decided by the cancellation between the energies and their mean, is
  modelled with every operation rounded.  The other functions are modelled with the
  exact operations: the values they yield are those of the program up to rounding.
\<close>

datatype double = Num real | PosInf | NegInf | NaN

fun isnan :: "double \<Rightarrow> bool" where
  "isnan NaN = True"
| "isnan _ = False"

fun isinf :: "double \<Rightarrow> bool" where
  "isinf PosInf = True"
| "isinf NegInf = True"
| "isinf _ = False"

text \<open>\<^verbatim>\<open>a < b\<close>: false as soon as one side is NaN.\<close>

fun d_lt :: "double \<Rightarrow> double \<Rightarrow> bool" where
  "d_lt (Num a) (Num b) = (a < b)"
| "d_lt (Num a) PosInf = True"
| "d_lt NegInf (Num b) = True"
| "d_lt NegInf PosInf = True"
| "d_lt _ _ = False"

text \<open>\<^verbatim>\<open>a > b\<close>.\<close>

definition d_gt :: "double \<Rightarrow> double \<Rightarrow> bool" where
  "d_gt a b = d_lt b a"

text \<open>\<^verbatim>\<open>a <= b\<close>: false as soon as one side is NaN.\<close>

definition d_le :: "double \<Rightarrow> double \<Rightarrow> bool" where
  "d_le a b = (d_lt a b \<or> (a = b \<and> \<not> isnan a))"

fun d_neg :: "double \<Rightarrow> double" where
  "d_neg (Num a) = Num (- a)"
| "d_neg PosInf = NegInf"
| "d_neg NegInf = PosInf"
| "d_neg NaN = NaN"

fun d_add :: "double \<Rightarrow> double \<Rightarrow> double" where
  "d_add (Num a) (Num b) = Num (a + b)"
| "d_add NaN _ = NaN"
| "d_add _ NaN = NaN"
| "d_add PosInf NegInf = NaN"
| "d_add NegInf PosInf = NaN"
| "d_add PosInf _ = PosInf"
| "d_add NegInf _ = NegInf"
| "d_add _ PosInf = PosInf"
| "d_add _ NegInf = NegInf"

definition d_sub :: "double \<Rightarrow> double \<Rightarrow> double" where
  "d_sub a b = d_add a (d_neg b)"

text \<open>The infinity of the sign of \<open>s\<close>; \<open>0 * inf\<close> is NaN.\<close>

definition signed_inf :: "real \<Rightarrow> double" where
  "signed_inf s = (if s = 0 then NaN else if 0 < s then PosInf else NegInf)"

fun d_mul :: "double \<Rightarrow> double \<Rightarrow> double" where
  "d_mul (Num a) (Num b) = Num (a * b)"
| "d_mul NaN _ = NaN"
| "d_mul _ NaN = NaN"
| "d_mul PosInf (Num b) = signed_inf b"
| "d_mul NegInf (Num b) = signed_inf (- b)"
| "d_mul (Num a) PosInf = signed_inf a"
| "d_mul (Num a) NegInf = signed_inf (- a)"
| "d_mul PosInf PosInf = PosInf"
| "d_mul NegInf NegInf = PosInf"
| "d_mul PosInf NegInf = NegInf"
| "d_mul NegInf PosInf = NegInf"

text \<open>Division; a zero divisor counts as \<open>+0\<close>.\<close>

fun d_div :: "double \<Rightarrow> double \<Rightarrow> double" where
  "d_div (Num a) (Num b) = (if b = 0 then signed_inf a else Num (a / b))"
| "d_div NaN _ = NaN"
| "d_div _ NaN = NaN"
| "d_div PosInf (Num b) = (if b < 0 then NegInf else PosInf)"
| "d_div NegInf (Num b) = (if b < 0 then PosInf else NegInf)"
| "d_div (Num a) PosInf = Num 0"
| "d_div (Num a) NegInf = Num 0"
| "d_div PosInf PosInf = NaN"
| "d_div PosInf NegInf = NaN"
| "d_div NegInf PosInf = NaN"
| "d_div NegInf NegInf = NaN"

fun d_sqrt :: "double \<Rightarrow> double" where
  "d_sqrt (Num a) = (if a < 0 then NaN else Num (sqrt a))"
| "d_sqrt PosInf = PosInf"
| "d_sqrt _ = NaN"

subsection \<open>Rounding\<close>

text \<open>
  A finite double is an integer multiple of a power of two.  A value of binary
  exponent \<open>e\<close> (\<open>2 ^ e \<le> \<bar>x\<bar> < 2 ^ (e + 1)\<close>) is written with 53 binary digits, in
  units of \<open>2 ^ (e - 52)\<close>; below the exponent \<open>-1022\<close> the unit stays at
  \<open>2 ^ (-1074)\<close>.  The result of an operation is the exact result rounded to the
  nearest multiple of its unit, a tie going to the even multiple, and it is the
  infinity of its sign when the rounded value reaches \<open>2 ^ 1024\<close>.
\<close>

definition pow2 :: "int \<Rightarrow> real" where
  "pow2 k = (if 0 \<le> k then 2 ^ nat k else 1 / 2 ^ nat (- k))"

definition round_half_even :: "real \<Rightarrow> int" where
  "round_half_even q =
     (let f = \<lfloor>q\<rfloor>
      in if q - of_int f < 1 / 2 then f
         else if 1 / 2 < q - of_int f then f + 1
         else if even f then f else f + 1)"

definition round_double :: "real \<Rightarrow> double" where
  "round_double x =
     (if x = 0 then Num 0
      else
        let e = max \<lfloor>log 2 \<bar>x\<bar>\<rfloor> (- 1022);
            ulp = pow2 (e - 52);
            y = of_int (round_half_even (x / ulp)) * ulp
        in if 2 ^ 1024 \<le> \<bar>y\<bar> then (if 0 < x then PosInf else NegInf) else Num y)"

fun fl :: "double \<Rightarrow> double" where
  "fl (Num x) = round_double x"
| "fl d = d"

section \<open>The tick stack (\<^verbatim>\<open>tickstack_11d.h\<close>)\<close>

text \<open>
  \<^verbatim>\<open>fixed_memory_systems.h\<close> declares the structures and the functions of the
  11-dimensional tick stack; the bodies are not part of the sources.
\<close>

definition TICKSTACK_DIM :: nat where
  "TICKSTACK_DIM = 11"

definition TICKSTACK_SIZE :: nat where
  "TICKSTACK_SIZE = 50"

definition TICKSTACK_EPSILON :: real where
  "TICKSTACK_EPSILON = 1 / 10000000000"

record ElectronFreeLiteral =
  coords :: "double list"
  is_observed :: int

record MultivarDeltaTopology =
  deltas :: "double list"
  magnitude :: double
  directions :: "double list"
  phase :: double
  harmonic_factor :: double
  variable_count :: int

text \<open>
  \<^verbatim>\<open>literals\<close> and \<^verbatim>\<open>delta_topology\<close> are pointers with a count beside them:
  the lists hold the \<^verbatim>\<open>literal_count\<close> and \<^verbatim>\<open>topology_count\<close> live elements.
\<close>

record MultivarTickStack =
  literals :: "ElectronFreeLiteral list"
  probabilities :: "double list"
  delta_topology :: "MultivarDeltaTopology list"
  error_code :: int

definition literal_count :: "MultivarTickStack \<Rightarrow> nat" where
  "literal_count ts = length (literals ts)"

definition topology_count :: "MultivarTickStack \<Rightarrow> nat" where
  "topology_count ts = length (delta_topology ts)"

text \<open>
  Modelled from the spec: \<^verbatim>\<open>vector_magnitude\<close> is declared in
  \<^verbatim>\<open>fixed_memory_systems.h\<close> and its body is missing.  Spec 4.1: the Euclidean norm
  over all D = 11 axes, with NaN/Inf propagated as a sentinel.
\<close>

definition vector_magnitude :: "double list \<Rightarrow> double" where
  "vector_magnitude v =
     d_sqrt (foldl (\<lambda>s x. d_add s (d_mul x x)) (Num 0) (take TICKSTACK_DIM v))"

text \<open>
  Modelled from the spec: \<^verbatim>\<open>init_multivar_tickstack\<close> is declared and its body is
  missing.  A fresh engine holds no literal and no delta record.
\<close>

definition init_multivar_tickstack :: "MultivarTickStack \<Rightarrow> MultivarTickStack" where
  "init_multivar_tickstack ts = ts\<lparr>literals := [], delta_topology := [], error_code := 0\<rparr>"

text \<open>
  Modelled from the spec: the macro \<^verbatim>\<open>PUSH_LITERAL\<close> and \<^verbatim>\<open>push_electron_free_literal\<close>
  behind it are missing.  Spec 4.2: the vector is appended to the ordered sequence of
  literals; at the capacity of 50 the push is a no-op and the oldest literal stays.
\<close>

definition PUSH_LITERAL :: "MultivarTickStack \<Rightarrow> double list \<Rightarrow> MultivarTickStack" where
  "PUSH_LITERAL ts v =
     (if TICKSTACK_SIZE \<le> literal_count ts then ts
      else ts\<lparr>literals := literals ts @ [\<lparr>coords = take TICKSTACK_DIM v, is_observed = 0\<rparr>]\<rparr>)"

section \<open>The Higgs field (\<^verbatim>\<open>higgs_king.h\<close>)\<close>

definition HIGGS_FIELD_DIM :: nat where
  "HIGGS_FIELD_DIM = TICKSTACK_DIM"

definition HIGGS_FIELD_SIZE :: nat where
  "HIGGS_FIELD_SIZE = 100"

definition HIGGS_ENERGY_FACTOR :: real where
  "HIGGS_ENERGY_FACTOR = 0.618033988749895"

definition HIGGS_COUPLING_BASE :: real where
  "HIGGS_COUPLING_BASE = 0.125"

definition FUZZY_CONFIDENCE_THRESHOLD :: real where
  "FUZZY_CONFIDENCE_THRESHOLD = 0.7"

definition FIELD_STABILITY_THRESHOLD :: real where
  "FIELD_STABILITY_THRESHOLD = 1 / 1000000"

record HiggsFieldPoint =
  field :: "double list"
  energy :: double
  mass :: double
  fuzzy_score :: double
  is_interacting :: int
  insert_id :: string

text \<open>
  \<^verbatim>\<open>points\<close> is the whole array of \<^verbatim>\<open>HIGGS_FIELD_SIZE\<close> slots; the stored points
  are the slots below \<^verbatim>\<open>point_count\<close>.
\<close>

record HiggsField =
  points :: "HiggsFieldPoint list"
  point_count :: nat
  tick_stack :: MultivarTickStack
  coupling_factor :: double

text \<open>The stored points: the slots \<open>0 .. point_count - 1\<close>.\<close>

definition stored :: "HiggsField \<Rightarrow> HiggsFieldPoint list" where
  "stored hf = take (point_count hf) (points hf)"

text \<open>
  \<^verbatim>\<open>init_higgs_field\<close>: the caller's structure is uninitialised; the count and the
  coupling are set and a fresh tick stack is attached (\<^verbatim>\<open>calloc\<close> zeroes it; a failed
  allocation ends the process and is not a state of the model).
\<close>

definition init_higgs_field :: "HiggsField \<Rightarrow> HiggsField" where
  "init_higgs_field hf =
     hf\<lparr>point_count := 0,
        coupling_factor := Num HIGGS_COUPLING_BASE,
        tick_stack := init_multivar_tickstack
          \<lparr>literals = [], probabilities = replicate TICKSTACK_SIZE (Num 0),
           delta_topology = [], error_code = 0\<rparr>\<rparr>"

text \<open>
  \<^verbatim>\<open>monitor_field_stability\<close>: two loops over the stored points, the first for the
  mean energy (\<^verbatim>\<open>mean_energy += points[i].energy\<close>, then
  \<^verbatim>\<open>mean_energy /= point_count\<close>), the second for the variance
  (\<^verbatim>\<open>diff = points[i].energy - mean_energy; variance += diff * diff\<close>, then
  \<^verbatim>\<open>variance /= point_count\<close>).  Each of these operations yields a double: the sum,
  the difference, the product and the quotient are rounded one by one.  The count,
  at most \<^verbatim>\<open>HIGGS_FIELD_SIZE\<close>, converts to a double without rounding; the constant
  \<^verbatim>\<open>FIELD_STABILITY_THRESHOLD\<close> is the double nearest to \<open>10 ^ (-6)\<close>.
\<close>

definition monitor_field_stability :: "HiggsField \<Rightarrow> double" where
  "monitor_field_stability hf =
     (if point_count hf = 0 then Num 1
      else
        let mean_energy = fl (d_div (foldl (\<lambda>m p. fl (d_add m (energy p))) (Num 0) (stored hf))
                                    (Num (real (point_count hf))));
            variance = fl (d_div (foldl (\<lambda>v p. let diff = fl (d_sub (energy p) mean_energy)
                                                 in fl (d_add v (fl (d_mul diff diff))))
                                        (Num 0) (stored hf))
                                 (Num (real (point_count hf))))
        in if d_lt variance (fl (Num FIELD_STABILITY_THRESHOLD)) then Num 1 else Num 0.5)"

text \<open>
  The last line of \<^verbatim>\<open>fuzzy_score_point\<close>:
  \<^verbatim>\<open>return score > FUZZY_CONFIDENCE_THRESHOLD ? score : score * 0.8;\<close>
\<close>

definition higgs_dampen :: "double \<Rightarrow> double" where
  "higgs_dampen score =
     (if d_gt score (Num FUZZY_CONFIDENCE_THRESHOLD) then score else d_mul score (Num 0.8))"

definition fuzzy_score_point :: "HiggsFieldPoint \<Rightarrow> HiggsField \<Rightarrow> double" where
  "fuzzy_score_point point hf =
     (let energy_factor = d_div (energy point)
                            (Num (HIGGS_ENERGY_FACTOR * real HIGGS_FIELD_DIM));
          mass_factor = d_div (mass point) (Num 2);
          stability_factor = monitor_field_stability hf;
          score = (if d_lt energy_factor mass_factor then energy_factor else mass_factor);
          score = (if d_lt score stability_factor then score else stability_factor)
      in higgs_dampen score)"

text \<open>
  The sorting loop of \<^verbatim>\<open>add_higgs_point\<close>:
  \<^verbatim>\<open>for (i = index; i > 0 && points[i].fuzzy_score > points[i-1].fuzzy_score; i--)\<close>
  swaps the slots \<open>i\<close> and \<open>i - 1\<close>.
\<close>

fun sort_loop :: "HiggsFieldPoint list \<Rightarrow> nat \<Rightarrow> HiggsFieldPoint list" where
  "sort_loop ps 0 = ps"
| "sort_loop ps (Suc j) =
     (if d_gt (fuzzy_score (ps ! Suc j)) (fuzzy_score (ps ! j))
      then sort_loop (ps[Suc j := ps ! j, j := ps ! Suc j]) j
      else ps)"

text \<open>
  \<^verbatim>\<open>add_higgs_point\<close>.  The pointers \<^verbatim>\<open>coords\<close> and \<^verbatim>\<open>insert_id\<close> may be NULL
  (\<open>None\<close>); the function returns nothing, so the model returns the field as the call
  leaves it and the messages passed to \<^verbatim>\<open>report_error\<close>.
\<close>

definition add_higgs_point ::
  "HiggsField \<Rightarrow> double list option \<Rightarrow> double \<Rightarrow> string option \<Rightarrow> HiggsField \<times> string list"
where
  "add_higgs_point hf crds m tag_p =
     (case (crds, tag_p) of
        (Some cs, Some tag) \<Rightarrow>
          if HIGGS_FIELD_SIZE \<le> point_count hf
          then (hf, [''Invalid input in add_higgs_point''])
          else
            let index = point_count hf;
                hf = hf\<lparr>point_count := index + 1\<rparr>;
                hf = hf\<lparr>points := (points hf)
                        [index := (points hf ! index)\<lparr>field := take HIGGS_FIELD_DIM cs\<rparr>]\<rparr>;
                mag = vector_magnitude cs
            in if isnan mag \<or> isinf mag
               then (hf\<lparr>point_count := point_count hf - 1\<rparr>,
                     [''Invalid magnitude in add_higgs_point''])
               else
                 let hf = hf\<lparr>points := (points hf)
                        [index := (points hf ! index)
                           \<lparr>energy := d_mul mag (Num HIGGS_ENERGY_FACTOR),
                            mass := m, is_interacting := 1\<rparr>]\<rparr>;
                     hf = hf\<lparr>points := (points hf)
                        [index := (points hf ! index)
                           \<lparr>fuzzy_score := fuzzy_score_point (points hf ! index) hf\<rparr>]\<rparr>;
                     hf = hf\<lparr>points := (points hf)
                        [index := (points hf ! index)\<lparr>insert_id := take 31 tag\<rparr>]\<rparr>;
                     hf = hf\<lparr>tick_stack := PUSH_LITERAL (tick_stack hf) cs\<rparr>
                 in (hf\<lparr>points := sort_loop (points hf) index\<rparr>, [])
      | _ \<Rightarrow> (hf, [''Invalid input in add_higgs_point'']))"

text \<open>
  \<^verbatim>\<open>TICK_STACK_XFORM(val, result)\<close>: \<^verbatim>\<open>result = val + 4\<close> (the assembly of the GNU
  variant computes the same sum).
\<close>

definition TICK_STACK_XFORM :: "double \<Rightarrow> double" where
  "TICK_STACK_XFORM val = d_add val (Num 4)"

text \<open>
  One round of the loop of \<^verbatim>\<open>higgs_interaction\<close>, for the slot \<open>i\<close>.  The macro
  \<^verbatim>\<open>X_MULTIVAR\<close> is missing from the sources and is a parameter.  The record
  \<^verbatim>\<open>delta_topology[0]\<close> is read without a check of \<^verbatim>\<open>topology_count\<close>: on an empty
  topology the read is out of range, and the model has no state for it (\<open>None\<close>).
\<close>

definition interaction_body ::
  "(MultivarTickStack \<Rightarrow> double \<Rightarrow> MultivarTickStack) \<Rightarrow>
   (HiggsField \<times> string list) option \<Rightarrow> nat \<Rightarrow> (HiggsField \<times> string list) option"
where
  "interaction_body X_MULTIVAR st i =
     (case st of
        None \<Rightarrow> None
      | Some (hf, errs) \<Rightarrow>
          if d_lt (fuzzy_score (points hf ! i)) (Num FUZZY_CONFIDENCE_THRESHOLD)
          then Some (hf, errs)
          else
            (case delta_topology (tick_stack hf) of
               [] \<Rightarrow> None
             | anchor # _ \<Rightarrow>
                 let delta = magnitude anchor;
                     harmonic = harmonic_factor anchor
                 in if isnan delta \<or> isinf delta \<or> isnan harmonic \<or> isinf harmonic
                    then Some (hf, errs @ [''Numerical instability in higgs_interaction''])
                    else
                      let hf = hf\<lparr>points := (points hf)
                             [i := (points hf ! i)\<lparr>energy := d_mul (energy (points hf ! i))
                                (d_add (Num 1) (d_mul (coupling_factor hf) delta))\<rparr>]\<rparr>;
                          hf = hf\<lparr>points := (points hf)
                             [i := (points hf ! i)\<lparr>mass := d_mul (mass (points hf ! i))
                                (d_add (Num 1) (d_mul (coupling_factor hf) harmonic))\<rparr>]\<rparr>;
                          xform_result = TICK_STACK_XFORM (Num 4)
                      in Some (hf\<lparr>tick_stack := X_MULTIVAR (tick_stack hf) xform_result\<rparr>,
                               errs)))"

text \<open>
  \<^verbatim>\<open>higgs_interaction\<close>.  \<^verbatim>\<open>compute_multivar_delta_topology\<close> is declared in
  \<^verbatim>\<open>fixed_memory_systems.h\<close> without a body and is a parameter, as \<^verbatim>\<open>X_MULTIVAR\<close> is.
  The result is the field after the call and the messages reported, in order.
\<close>

definition higgs_interaction ::
  "(MultivarTickStack \<Rightarrow> MultivarTickStack) \<Rightarrow>
   (MultivarTickStack \<Rightarrow> double \<Rightarrow> MultivarTickStack) \<Rightarrow>
   HiggsField \<Rightarrow> (HiggsField \<times> string list) option"
where
  "higgs_interaction compute_multivar_delta_topology X_MULTIVAR hf =
     (if point_count hf < 2
      then Some (hf, [''Invalid field or insufficient points in higgs_interaction''])
      else
        let hf = hf\<lparr>coupling_factor :=
                     d_mul (Num HIGGS_COUPLING_BASE) (monitor_field_stability hf)\<rparr>;
            hf = hf\<lparr>tick_stack := compute_multivar_delta_topology (tick_stack hf)\<rparr>
        in foldl (interaction_body X_MULTIVAR) (Some (hf, [])) [0..<point_count hf])"

subsection \<open>Sequences of calls\<close>

datatype higgs_call = Insert "double list option" double "string option" | Step

fun higgs_step ::
  "(MultivarTickStack \<Rightarrow> MultivarTickStack) \<Rightarrow>
   (MultivarTickStack \<Rightarrow> double \<Rightarrow> MultivarTickStack) \<Rightarrow>
   HiggsField \<Rightarrow> higgs_call \<Rightarrow> HiggsField option"
where
  "higgs_step cmp xmv hf (Insert crds m tag_p) = Some (fst (add_higgs_point hf crds m tag_p))"
| "higgs_step cmp xmv hf Step = map_option fst (higgs_interaction cmp xmv hf)"

fun higgs_run ::
  "(MultivarTickStack \<Rightarrow> MultivarTickStack) \<Rightarrow>
   (MultivarTickStack \<Rightarrow> double \<Rightarrow> MultivarTickStack) \<Rightarrow>
   HiggsField \<Rightarrow> higgs_call list \<Rightarrow> HiggsField option"
where
  "higgs_run cmp xmv hf [] = Some hf"
| "higgs_run cmp xmv hf (c # cs) =
     (case higgs_step cmp xmv hf c of
        None \<Rightarrow> None
      | Some hf' \<Rightarrow> higgs_run cmp xmv hf' cs)"

section \<open>The deferred free stack (\<^verbatim>\<open>free_all.h\<close>)\<close>

definition MAX_TICK_STACK :: nat where
  "MAX_TICK_STACK = 1024"

definition MEMORY_PRESSURE_THRESHOLD :: real where
  "MEMORY_PRESSURE_THRESHOLD = 0.9"

text \<open>
  A \<^verbatim>\<open>FreeTick\<close>; the pointer is an address, \<open>0\<close> for NULL.  The field \<^verbatim>\<open>next\<close>
  is the tail of the list that models the chain.  The fields \<^verbatim>\<open>size\<close> and
  \<^verbatim>\<open>fuzzy_score\<close> carry a suffix, their names being taken (by the size of HOL and by
  the field of \<open>HiggsFieldPoint\<close>), as the global \<^verbatim>\<open>tick_stack\<close> does below.
\<close>

record FreeTick =
  ptr :: nat
  size_f :: nat
  ref_count :: int
  fuzzy_score_f :: double

text \<open>What the functions print, to \<^verbatim>\<open>stderr\<close> or \<^verbatim>\<open>stdout\<close>.\<close>

datatype free_all_message =
    Null_ptr_or_tick_stack_full
  | Memory_allocation_failed_for_tick
  | Double_free_attempt nat
  | Low_memory_pressure_deferring_cascade

text \<open>
  The two globals \<^verbatim>\<open>tick_stack\<close> and \<^verbatim>\<open>tick_count\<close>, and the effects on the world
  outside: \<open>released\<close> lists the addresses handed to \<^verbatim>\<open>free\<close>, in order, and
  \<open>printed\<close> the messages.
\<close>

record free_all_state =
  tick_stack_g :: "FreeTick list"
  tick_count :: nat
  released :: "nat list"
  printed :: "free_all_message list"

definition monitor_memory_pressure :: "free_all_state \<Rightarrow> double" where
  "monitor_memory_pressure st =
     (if d_gt (Num (real (tick_count st)))
              (Num (real MAX_TICK_STACK * MEMORY_PRESSURE_THRESHOLD))
      then Num 0.9 else Num 0.5)"

definition fuzzy_score_ptr :: "free_all_state \<Rightarrow> nat \<Rightarrow> nat \<Rightarrow> int \<Rightarrow> double" where
  "fuzzy_score_ptr st p sz rc =
     (let size_factor = (if 1024 < sz then Num 0.9 else d_div (Num (real sz)) (Num 1024));
          ref_factor = (if 1 < rc then Num 0.7 else Num 0.3);
          memory_pressure = monitor_memory_pressure st;
          score = (if d_lt size_factor ref_factor then size_factor else ref_factor);
          score = (if d_lt score memory_pressure then score else memory_pressure)
      in score)"

text \<open>
  The penalty of \<^verbatim>\<open>tick_push\<close>:
  \<^verbatim>\<open>if (t->fuzzy_score < FUZZY_CONFIDENCE_THRESHOLD) t->fuzzy_score *= 0.8;\<close>
\<close>

definition tick_dampen :: "double \<Rightarrow> double" where
  "tick_dampen score =
     (if d_lt score (Num FUZZY_CONFIDENCE_THRESHOLD) then d_mul score (Num 0.8) else score)"

text \<open>
  The walk of \<^verbatim>\<open>tick_push\<close> below the head:
  \<^verbatim>\<open>while (cur->next && cur->next->fuzzy_score > t->fuzzy_score) cur = cur->next;\<close>
  The argument is the chain after \<^verbatim>\<open>cur\<close>.
\<close>

fun tick_insert :: "FreeTick \<Rightarrow> FreeTick list \<Rightarrow> FreeTick list" where
  "tick_insert t [] = [t]"
| "tick_insert t (n # ns) =
     (if d_gt (fuzzy_score_f n) (fuzzy_score_f t) then n # tick_insert t ns else t # n # ns)"

text \<open>\<^verbatim>\<open>tick_push\<close>; \<open>malloc_ok\<close> tells whether \<^verbatim>\<open>malloc\<close> returns a tick.\<close>

definition tick_push :: "free_all_state \<Rightarrow> nat \<Rightarrow> nat \<Rightarrow> int \<Rightarrow> bool \<Rightarrow> free_all_state" where
  "tick_push st p sz rc malloc_ok =
     (if p = 0 \<or> MAX_TICK_STACK \<le> tick_count st
      then st\<lparr>printed := printed st @ [Null_ptr_or_tick_stack_full]\<rparr>
      else if \<not> malloc_ok
      then st\<lparr>printed := printed st @ [Memory_allocation_failed_for_tick]\<rparr>
      else
        let t = \<lparr>ptr = p, size_f = sz, ref_count = rc,
                 fuzzy_score_f = tick_dampen (fuzzy_score_ptr st p sz rc)\<rparr>;
            chain = (case tick_stack_g st of
                       [] \<Rightarrow> [t]
                     | h # rest \<Rightarrow>
                         if d_gt (fuzzy_score_f t) (fuzzy_score_f h) then t # h # rest
                         else h # tick_insert t rest)
        in st\<lparr>tick_stack_g := chain, tick_count := tick_count st + 1\<rparr>)"

definition is_valid_ptr :: "nat \<Rightarrow> bool" where
  "is_valid_ptr p = (p \<noteq> 0)"

text \<open>The loop of \<^verbatim>\<open>tick_cascade\<close> over the chain.\<close>

fun cascade_walk :: "FreeTick list \<Rightarrow> free_all_state \<Rightarrow> free_all_state" where
  "cascade_walk [] st = st"
| "cascade_walk (cur # rest) st =
     cascade_walk rest
       (if ptr cur \<noteq> 0
        then (if \<not> is_valid_ptr (ptr cur)
              then st\<lparr>printed := printed st @ [Double_free_attempt (ptr cur)]\<rparr>
              else st\<lparr>released := released st @ [ptr cur]\<rparr>)
        else st)"

definition tick_cascade :: "free_all_state \<Rightarrow> free_all_state" where
  "tick_cascade st = (cascade_walk (tick_stack_g st) st)\<lparr>tick_stack_g := [], tick_count := 0\<rparr>"

definition free_all_tickstack :: "free_all_state \<Rightarrow> free_all_state" where
  "free_all_tickstack st =
     (if d_gt (monitor_memory_pressure st) (Num MEMORY_PRESSURE_THRESHOLD)
      then tick_cascade st
      else st\<lparr>printed := printed st @ [Low_memory_pressure_deferring_cascade]\<rparr>)"

text \<open>The state before the first call: the initialisers of the two globals.\<close>

definition free_all_init :: free_all_state where
  "free_all_init = \<lparr>tick_stack_g = [], tick_count = 0, released = [], printed = []\<rparr>"

text \<open>\<^verbatim>\<open>tick_push(h, sz, rc)\<close> for each handle of a list, every allocation succeeding.\<close>

definition submit_all :: "nat list \<Rightarrow> nat \<Rightarrow> int \<Rightarrow> free_all_state \<Rightarrow> free_all_state" where
  "submit_all hs sz rc st = foldl (\<lambda>s h. tick_push s h sz rc True) st hs"

section \<open>Notions of the specification\<close>

subsection \<open>The topology of spec 4.2\<close>

definition TICKSTACK_PHI :: real where
  "TICKSTACK_PHI = 1.618033988749895"

definition finite_vector :: "double list \<Rightarrow> bool" where
  "finite_vector v = list_all (\<lambda>x. \<not> isnan x \<and> \<not> isinf x) v"

text \<open>
  Modelled from the spec: \<^verbatim>\<open>compute_multivar_delta_topology\<close> is declared and its body
  is missing.  Spec 4.2: one record per consecutive pair of literals, with
  \<open>deltas = delta(L[i], L[i-1])\<close>, \<open>magnitude = magnitude(deltas)\<close>, the directions
  \<open>deltas[k] / magnitude\<close> (0 when the magnitude is below the epsilon), and a record
  skipped when one of its two vectors holds a NaN or an infinity; the previous list of
  records is replaced.  The spec leaves the formulas of the phase and of the harmonic
  factor open: \<open>phase_of\<close> and \<open>harmonic_of\<close> are parameters.
\<close>

definition delta_record ::
  "(double \<Rightarrow> double) \<Rightarrow> (double list \<Rightarrow> double) \<Rightarrow>
   ElectronFreeLiteral \<Rightarrow> ElectronFreeLiteral \<Rightarrow> MultivarDeltaTopology"
where
  "delta_record harmonic_of phase_of prev cur =
     (let ds = map2 d_sub (coords cur) (coords prev);
          mag = vector_magnitude ds
      in \<lparr>deltas = ds, magnitude = mag,
          directions = map (\<lambda>d. if d_lt mag (Num TICKSTACK_EPSILON) then Num 0
                                 else d_div d mag) ds,
          phase = phase_of ds, harmonic_factor = harmonic_of mag,
          variable_count = int (length ds)\<rparr>)"

fun topology_records ::
  "(double \<Rightarrow> double) \<Rightarrow> (double list \<Rightarrow> double) \<Rightarrow>
   ElectronFreeLiteral list \<Rightarrow> MultivarDeltaTopology list"
where
  "topology_records harmonic_of phase_of (prev # cur # rest) =
     (if finite_vector (coords prev) \<and> finite_vector (coords cur)
      then [delta_record harmonic_of phase_of prev cur] else [])
     @ topology_records harmonic_of phase_of (cur # rest)"
| "topology_records harmonic_of phase_of _ = []"

definition compute_multivar_delta_topology ::
  "(double \<Rightarrow> double) \<Rightarrow> (double list \<Rightarrow> double) \<Rightarrow>
   MultivarTickStack \<Rightarrow> MultivarTickStack"
where
  "compute_multivar_delta_topology harmonic_of phase_of ts =
     ts\<lparr>delta_topology := topology_records harmonic_of phase_of (literals ts)\<rparr>"

text \<open>
  The anchor that \<^verbatim>\<open>higgs_interaction\<close> reads: the magnitude and the harmonic factor of
  record 0, when there is one.
\<close>

definition anchor :: "MultivarTickStack \<Rightarrow> (double \<times> double) option" where
  "anchor ts =
     (case delta_topology ts of
        [] \<Rightarrow> None
      | a # _ \<Rightarrow> Some (magnitude a, harmonic_factor a))"

subsection \<open>The registry\<close>

text \<open>A sequence of doubles that never increases, in the order of C.\<close>

definition non_increasing :: "double list \<Rightarrow> bool" where
  "non_increasing xs = sorted_wrt (\<lambda>a b. d_le b a) xs"

text \<open>
  The list view of the sorting loop: on the stored points read from the last to the
  first, the new point passes every point of a smaller score and stops at the first
  that is not smaller.
\<close>

fun bubble :: "HiggsFieldPoint \<Rightarrow> HiggsFieldPoint list \<Rightarrow> HiggsFieldPoint list" where
  "bubble p [] = [p]"
| "bubble p (x # xs) =
     (if d_gt (fuzzy_score p) (fuzzy_score x) then x # bubble p xs else p # x # xs)"

text \<open>
  The point that an accepted \<^verbatim>\<open>add_higgs_point\<close> writes into the slot
  \<^verbatim>\<open>point_count\<close>, before the sorting loop moves it.
\<close>

definition new_point :: "HiggsField \<Rightarrow> double list \<Rightarrow> double \<Rightarrow> string \<Rightarrow> HiggsFieldPoint" where
  "new_point hf cs m tag =
     (let index = point_count hf;
          p = (points hf ! index)\<lparr>field := take HIGGS_FIELD_DIM cs,
                energy := d_mul (vector_magnitude cs) (Num HIGGS_ENERGY_FACTOR),
                mass := m, is_interacting := 1\<rparr>
      in p\<lparr>fuzzy_score := fuzzy_score_point p
              (hf\<lparr>point_count := index + 1, points := (points hf)[index := p]\<rparr>),
           insert_id := take 31 tag\<rparr>)"

text \<open>The arguments of one call of \<^verbatim>\<open>add_higgs_point\<close>, and a sequence of calls.\<close>

type_synonym insert_args = "double list option \<times> double \<times> string option"

definition insert_all :: "HiggsField \<Rightarrow> insert_args list \<Rightarrow> HiggsField" where
  "insert_all hf reqs = foldl (\<lambda>h (crds, m, tag_p). fst (add_higgs_point h crds m tag_p)) hf reqs"

text \<open>Arguments that pass the two checks of \<^verbatim>\<open>add_higgs_point\<close> on its arguments.\<close>

fun well_formed_args :: "insert_args \<Rightarrow> bool" where
  "well_formed_args (Some cs, m, Some tag) =
     (\<not> isnan (vector_magnitude cs) \<and> \<not> isinf (vector_magnitude cs))"
| "well_formed_args _ = False"

text \<open>A call that does not insert a negative mass.\<close>

fun mass_not_negative :: "higgs_call \<Rightarrow> bool" where
  "mass_not_negative (Insert crds m tag_p) = (\<not> d_lt m (Num 0))"
| "mass_not_negative Step = True"

text \<open>
  The invariant of the registry: the array has its \<^verbatim>\<open>HIGGS_FIELD_SIZE\<close> slots, the
  count stays within them, and the stored scores are numbers of at most 1 that never
  increase.
\<close>

definition registry_ok :: "HiggsField \<Rightarrow> bool" where
  "registry_ok hf =
     (length (points hf) = HIGGS_FIELD_SIZE \<and> point_count hf \<le> HIGGS_FIELD_SIZE \<and>
      non_increasing (map fuzzy_score (stored hf)) \<and>
      (\<forall>p\<in>set (stored hf). \<not> isnan (fuzzy_score p) \<and> d_le (fuzzy_score p) (Num 1)))"

text \<open>
  The variance of the spec's \<open>stability()\<close>: the mean squared distance of the energies
  to their mean; no energy, no variance.
\<close>

definition energy_variance :: "real list \<Rightarrow> real" where
  "energy_variance es =
     (if es = [] then 0
      else let n = real (length es);
               mean = sum_list es / n
           in sum_list (map (\<lambda>e. (e - mean) ^ 2) es) / n)"

text \<open>
  The same variance as the doubles give it: the energies are added from the first to
  the last, the sum is divided by their number, and the squared distances to that
  mean are added and divided in the same way, each operation rounded.
\<close>

definition double_mean :: "double list \<Rightarrow> double" where
  "double_mean es =
     fl (d_div (foldl (\<lambda>m e. fl (d_add m e)) (Num 0) es) (Num (real (length es))))"

definition double_variance :: "double list \<Rightarrow> double" where
  "double_variance es =
     fl (d_div (foldl (\<lambda>v e. let diff = fl (d_sub e (double_mean es))
                              in fl (d_add v (fl (d_mul diff diff)))) (Num 0) es)
               (Num (real (length es))))"

text \<open>
  What one step does to one stored point, for the coupling \<open>cf\<close> and the anchor values
  \<open>delta\<close> and \<open>harmonic\<close>.
\<close>

definition interact_point ::
  "double \<Rightarrow> double \<Rightarrow> double \<Rightarrow> HiggsFieldPoint \<Rightarrow> HiggsFieldPoint"
where
  "interact_point cf delta harmonic p =
     (if d_lt (fuzzy_score p) (Num FUZZY_CONFIDENCE_THRESHOLD) then p
      else if isnan delta \<or> isinf delta \<or> isnan harmonic \<or> isinf harmonic then p
      else p\<lparr>energy := d_mul (energy p) (d_add (Num 1) (d_mul cf delta)),
             mass := d_mul (mass p) (d_add (Num 1) (d_mul cf harmonic))\<rparr>)"

text \<open>
  A structure as a caller declares it before \<^verbatim>\<open>init_higgs_field\<close>, here zero-filled,
  and a vector along the first axis.
\<close>

definition zero_point :: HiggsFieldPoint where
  "zero_point = \<lparr>field = replicate 11 (Num 0), energy = Num 0, mass = Num 0,
                  fuzzy_score = Num 0, is_interacting = 0, insert_id = []\<rparr>"

definition zero_field :: HiggsField where
  "zero_field = \<lparr>points = replicate 100 zero_point, point_count = 0,
                  tick_stack = \<lparr>literals = [], probabilities = [], delta_topology = [],
                                error_code = 0\<rparr>,
                  coupling_factor = Num 0\<rparr>"

definition axis_vector :: "real \<Rightarrow> double list" where
  "axis_vector x = Num x # replicate 10 (Num 0)"

text \<open>
  The point that an accepted call stores for a position on the first axis, when
  the energies of the registry are level, and the fields of one and of two such calls
  at opposite positions.
\<close>

definition axis_point :: "real \<Rightarrow> double \<Rightarrow> string \<Rightarrow> HiggsFieldPoint" where
  "axis_point x m tag =
     \<lparr>field = axis_vector x, energy = Num (\<bar>x\<bar> * HIGGS_ENERGY_FACTOR), mass = m,
      fuzzy_score = higgs_dampen
        (let score = (if d_lt (Num (\<bar>x\<bar> / 11)) (d_div m (Num 2))
                      then Num (\<bar>x\<bar> / 11) else d_div m (Num 2))
         in if d_lt score (Num 1) then score else Num 1),
      is_interacting = 1, insert_id = take 31 tag\<rparr>"

definition one_point :: "double \<Rightarrow> HiggsField" where
  "one_point m =
     insert_all (init_higgs_field zero_field) [(Some (axis_vector 11), m, Some ''a'')]"

definition two_points :: "double \<Rightarrow> double \<Rightarrow> HiggsField" where
  "two_points m1 m2 =
     insert_all (init_higgs_field zero_field)
       [(Some (axis_vector 11), m1, Some ''a''), (Some (axis_vector (- 11)), m2, Some ''b'')]"

text \<open>
  An instance of what the sources leave out, for the examples: the harmonic factor as
  the magnitude scaled by the golden ratio, the phase as the sum of the deltas, and an
  \<^verbatim>\<open>X_MULTIVAR\<close> that leaves the tick stack as it is.
\<close>

definition golden_harmonic :: "double \<Rightarrow> double" where
  "golden_harmonic mag = d_mul mag (Num TICKSTACK_PHI)"

definition delta_sum_phase :: "double list \<Rightarrow> double" where
  "delta_sum_phase ds = foldl d_add (Num 0) ds"

definition reference_topology :: "MultivarTickStack \<Rightarrow> MultivarTickStack" where
  "reference_topology = compute_multivar_delta_topology golden_harmonic delta_sum_phase"

definition X_MULTIVAR_idle :: "MultivarTickStack \<Rightarrow> double \<Rightarrow> MultivarTickStack" where
  "X_MULTIVAR_idle ts v = ts"

section \<open>Properties of the arithmetic\<close>

lemma d_lt_irrefl [simp]: "\<not> d_lt a a"
  by (cases a) auto

lemma d_lt_trans: "d_lt a b \<Longrightarrow> d_lt b c \<Longrightarrow> d_lt a c"
  by (cases a; cases b; cases c) auto

lemma d_le_trans: "d_le a b \<Longrightarrow> d_le b c \<Longrightarrow> d_le a c"
  unfolding d_le_def by (cases a; cases b; cases c) auto

lemma d_le_total: "\<not> isnan a \<Longrightarrow> \<not> isnan b \<Longrightarrow> \<not> d_lt a b \<Longrightarrow> d_le b a"
  unfolding d_le_def by (cases a; cases b) auto

subsection \<open>Rounding\<close>

lemma pow2_powr: "pow2 k = 2 powr (of_int k)"
  by (simp add: pow2_def powr_real_of_int inverse_eq_divide)

lemma pow2_pos [simp]: "0 < pow2 k"
  by (simp add: pow2_def)

lemma pow2_add: "pow2 (j + k) = pow2 j * pow2 k"
  by (simp add: pow2_powr powr_add)

lemma pow2_mono: "j \<le> k \<Longrightarrow> pow2 j \<le> pow2 k"
  by (simp add: pow2_powr)

lemma round_half_even_close: "\<bar>of_int (round_half_even q) - q\<bar> \<le> 1 / 2"
  unfolding round_half_even_def Let_def by (auto; linarith)

lemma round_half_even_int [simp]: "round_half_even (of_int n) = n"
  by (simp add: round_half_even_def)

lemma round_half_even_numeral [simp]: "round_half_even (numeral n) = numeral n"
  using round_half_even_int [of "numeral n"] by simp

text \<open>The binary exponent of a value.\<close>

lemma exponent_bounds:
  assumes "x \<noteq> 0"
  shows "pow2 \<lfloor>log 2 \<bar>x\<bar>\<rfloor> \<le> \<bar>x\<bar>" "\<bar>x\<bar> < pow2 (\<lfloor>log 2 \<bar>x\<bar>\<rfloor> + 1)"
  using floor_log_eq_powr_iff [of "\<bar>x\<bar>" 2 "\<lfloor>log 2 \<bar>x\<bar>\<rfloor>"] assms
  by (simp_all add: pow2_powr)

lemma exponent_eq:
  assumes "pow2 k \<le> \<bar>x\<bar>" "\<bar>x\<bar> < pow2 (k + 1)"
  shows "\<lfloor>log 2 \<bar>x\<bar>\<rfloor> = k"
proof -
  have "0 < \<bar>x\<bar>" using assms(1) pow2_pos [of k] by linarith
  then show ?thesis
    using floor_log_eq_powr_iff [of "\<bar>x\<bar>" 2 k] assms by (simp add: pow2_powr)
qed

text \<open>
  Rounding moves a value by half a unit at most: by the fraction \<open>2 ^ (-53)\<close> of the
  value, or by \<open>2 ^ (-1075)\<close> in the subnormal range.
\<close>

lemma round_double_close:
  assumes b: "\<bar>x\<bar> \<le> 2 ^ 1023"
  shows "\<exists>y. round_double x = Num y \<and> \<bar>y - x\<bar> \<le> \<bar>x\<bar> / 2 ^ 53 + 1 / 2 ^ 1075"
proof (cases "x = 0")
  case True
  then show ?thesis by (simp add: round_double_def)
next
  case False
  define E where "E = \<lfloor>log 2 \<bar>x\<bar>\<rfloor>"
  define ulp where "ulp = pow2 (max E (- 1022) - 52)"
  define y where "y = of_int (round_half_even (x / ulp)) * ulp"
  have up: "0 < ulp" by (simp add: ulp_def)
  have "y - x = (of_int (round_half_even (x / ulp)) - x / ulp) * ulp"
    using up by (simp add: y_def left_diff_distrib)
  then have "\<bar>y - x\<bar> = \<bar>of_int (round_half_even (x / ulp)) - x / ulp\<bar> * ulp"
    using up by (simp add: abs_mult)
  also have "\<dots> \<le> 1 / 2 * ulp"
    using round_half_even_close [of "x / ulp"] up by (intro mult_right_mono) simp_all
  finally have d: "\<bar>y - x\<bar> \<le> ulp / 2" by simp
  have u: "ulp \<le> \<bar>x\<bar> / 2 ^ 52 + 1 / 2 ^ 1074"
  proof (cases "- 1022 \<le> E")
    case True
    then have "ulp = pow2 E * pow2 (- 52)"
      unfolding ulp_def using pow2_add [of E "- 52"] by (simp add: max_def)
    also have "\<dots> \<le> \<bar>x\<bar> * pow2 (- 52)"
      using exponent_bounds(1) [OF False] by (simp add: E_def)
    finally show ?thesis by (simp add: pow2_def)
  next
    case False
    then have "ulp = pow2 (- 1074)" by (simp add: ulp_def max_def)
    then show ?thesis by (simp add: pow2_def)
  qed
  have e: "\<bar>y - x\<bar> \<le> \<bar>x\<bar> / 2 ^ 53 + 1 / 2 ^ 1075"
    using d u by simp
  have "\<bar>y\<bar> \<le> \<bar>x\<bar> + \<bar>y - x\<bar>" by simp
  also have "\<dots> \<le> 2 ^ 1023 + (2 ^ 1023 / 2 ^ 53 + 1 / 2 ^ 1075)"
    using e b by (intro add_mono) (simp_all add: field_simps)
  also have "\<dots> < (2 :: real) ^ 1024" by simp
  finally have "\<not> 2 ^ 1024 \<le> \<bar>y\<bar>" by simp
  then have "round_double x = Num y"
    using False by (simp add: round_double_def Let_def E_def ulp_def y_def)
  then show ?thesis using e by blast
qed

lemma round_double_near:
  assumes "\<bar>x\<bar> \<le> 1000000"
  shows "\<exists>y. round_double x = Num y \<and> \<bar>y - x\<bar> \<le> 1 / 1000000000"
proof -
  have "\<bar>x\<bar> \<le> 2 ^ 1023" using assms by (rule order_trans) simp
  then obtain y where y: "round_double x = Num y" "\<bar>y - x\<bar> \<le> \<bar>x\<bar> / 2 ^ 53 + 1 / 2 ^ 1075"
    using round_double_close by blast
  have "\<bar>x\<bar> / 2 ^ 53 + 1 / 2 ^ 1075 \<le> 1000000 / 2 ^ 53 + 1 / (2 :: real) ^ 1075"
    using assms by (simp add: field_simps)
  also have "\<dots> \<le> 1 / 1000000000" by simp
  finally show ?thesis using y by (intro exI [of _ y]) simp
qed

text \<open>The rounding of a value whose binary exponent is known.\<close>

lemma round_double_eval:
  assumes "pow2 k \<le> \<bar>x\<bar>" "\<bar>x\<bar> < pow2 (k + 1)" "- 1022 \<le> k"
    and "of_int (round_half_even (x / pow2 (k - 52))) * pow2 (k - 52) = y"
    and "\<bar>y\<bar> < 2 ^ 1024"
  shows "round_double x = Num y"
proof -
  have "0 < \<bar>x\<bar>" using assms(1) pow2_pos [of k] by linarith
  then have "x \<noteq> 0" by simp
  then show ?thesis
    using assms(3,4,5) exponent_eq [OF assms(1,2)]
    by (simp add: round_double_def Let_def max_def)
qed

text \<open>An integer of at most 53 binary digits is a double.\<close>

lemma round_double_int:
  assumes "\<bar>m\<bar> < 2 ^ 53"
  shows "round_double (of_int m) = Num (of_int m)"
proof (cases "m = 0")
  case True
  then show ?thesis by (simp add: round_double_def)
next
  case False
  define x :: real where "x = of_int m"
  define E where "E = \<lfloor>log 2 \<bar>x\<bar>\<rfloor>"
  have x0: "x \<noteq> 0" using False by (simp add: x_def)
  have "1 \<le> \<bar>m\<bar>" using False by simp
  then have "(of_int 1 :: real) \<le> of_int \<bar>m\<bar>" by (simp only: of_int_le_iff)
  then have x1: "1 \<le> \<bar>x\<bar>" by (simp add: x_def)
  have "(of_int \<bar>m\<bar> :: real) < of_int (2 ^ 53)" using assms by (simp only: of_int_less_iff)
  then have x53: "\<bar>x\<bar> < 2 ^ 53" by (simp add: x_def)
  have E0: "0 \<le> E"
  proof (rule ccontr)
    assume "\<not> 0 \<le> E"
    then have "E + 1 \<le> 0" by simp
    then have "pow2 (E + 1) \<le> pow2 0" by (rule pow2_mono)
    then show False using exponent_bounds(2) [OF x0] x1 by (simp add: E_def pow2_def)
  qed
  have E52: "E \<le> 52"
  proof (rule ccontr)
    assume "\<not> E \<le> 52"
    then have "53 \<le> E" by simp
    then have "pow2 53 \<le> pow2 E" by (rule pow2_mono)
    then show False using exponent_bounds(1) [OF x0] x53 by (simp add: E_def pow2_def)
  qed
  define j where "j = nat (52 - E)"
  have u: "pow2 (E - 52) = 1 / 2 ^ j"
  proof (cases "E = 52")
    case True
    then show ?thesis by (simp add: pow2_def j_def)
  next
    case False
    then show ?thesis using E52 by (simp add: pow2_def j_def)
  qed
  have q: "x / pow2 (E - 52) = of_int (m * 2 ^ j)"
    by (simp add: u x_def)
  have y: "of_int (round_half_even (x / pow2 (E - 52))) * pow2 (E - 52) = x"
    unfolding q round_half_even_int by (simp add: u x_def)
  have "\<bar>x\<bar> < 2 ^ 1024" using x53 by (rule less_le_trans) simp
  then have "\<not> 2 ^ 1024 \<le> \<bar>x\<bar>" by simp
  then have "round_double x = Num x"
    using x0 E0 y by (simp add: round_double_def Let_def max_def E_def [symmetric])
  then show ?thesis by (simp add: x_def)
qed

lemma round_double_numeral [simp]:
  "(numeral n :: int) < 2 ^ 53 \<Longrightarrow> round_double (numeral n) = Num (numeral n)"
  "(numeral n :: int) < 2 ^ 53 \<Longrightarrow> round_double (- numeral n) = Num (- numeral n)"
  "round_double 1 = Num 1" "round_double (- 1) = Num (- 1)" "round_double 0 = Num 0"
  using round_double_int [of "numeral n"] round_double_int [of "- numeral n"]
    round_double_int [of 1] round_double_int [of "- 1"] round_double_int [of 0]
  by simp_all

text \<open>The constant \<^verbatim>\<open>FIELD_STABILITY_THRESHOLD\<close> as a double.\<close>

lemma threshold_double:
  "\<exists>t. fl (Num FIELD_STABILITY_THRESHOLD) = Num t \<and> 999 / 1000000000 \<le> t \<and> t \<le> 1001 / 1000000000"
proof -
  obtain t where t: "round_double (1 / 1000000) = Num t" "\<bar>t - 1 / 1000000\<bar> \<le> 1 / 1000000000"
    using round_double_near [of "1 / 1000000"] by auto
  have "999 / 1000000000 \<le> t \<and> t \<le> 1001 / 1000000000" using t(2) by (intro conjI) linarith+
  then show ?thesis using t(1) by (simp add: FIELD_STABILITY_THRESHOLD_def)
qed

section \<open>The registry\<close>

subsection \<open>The sorting loop\<close>

lemma sort_loop_length [simp]: "length (sort_loop ps i) = length ps"
  by (induction i arbitrary: ps) auto

lemma sort_loop_spec:
  "i < length ps \<Longrightarrow>
   sort_loop ps i = rev (bubble (ps ! i) (rev (take i ps))) @ drop (Suc i) ps"
proof (induction i arbitrary: ps)
  case 0
  then show ?case by (cases ps) auto
next
  case (Suc j)
  let ?qs = "ps[Suc j := ps ! j, j := ps ! Suc j]"
  have tk: "take (Suc j) ps = take j ps @ [ps ! j]"
    using Suc.prems by (simp add: take_Suc_conv_app_nth)
  show ?case
  proof (cases "d_gt (fuzzy_score (ps ! Suc j)) (fuzzy_score (ps ! j))")
    case True
    have "sort_loop ps (Suc j) = sort_loop ?qs j" using True by simp
    also have "\<dots> = rev (bubble (?qs ! j) (rev (take j ?qs))) @ drop (Suc j) ?qs"
      using Suc.prems by (intro Suc.IH) simp
    also have "?qs ! j = ps ! Suc j" using Suc.prems by simp
    also have "take j ?qs = take j ps" by simp
    also have "drop (Suc j) ?qs = ps ! j # drop (Suc (Suc j)) ps"
    proof -
      have "drop (Suc j) ?qs = drop (Suc j) (ps[Suc j := ps ! j])" by simp
      also have "\<dots> = (ps[Suc j := ps ! j]) ! Suc j # drop (Suc (Suc j)) (ps[Suc j := ps ! j])"
        using Suc.prems Cons_nth_drop_Suc [of "Suc j" "ps[Suc j := ps ! j]"] by simp
      finally show ?thesis using Suc.prems by simp
    qed
    finally show ?thesis using True by (simp add: tk)
  next
    case False
    then show ?thesis using Suc.prems
      by (simp add: tk Cons_nth_drop_Suc)
  qed
qed

lemma length_bubble [simp]: "length (bubble p xs) = Suc (length xs)"
  by (induction xs) auto

lemma bubble_split:
  "\<exists>ys zs. xs = ys @ zs \<and> rev (bubble p (rev xs)) = ys @ p # zs \<and>
     (\<forall>z\<in>set zs. d_gt (fuzzy_score p) (fuzzy_score z)) \<and>
     (ys \<noteq> [] \<longrightarrow> \<not> d_gt (fuzzy_score p) (fuzzy_score (last ys)))"
proof (induction xs rule: rev_induct)
  case Nil
  then show ?case by simp
next
  case (snoc x xs)
  show ?case
  proof (cases "d_gt (fuzzy_score p) (fuzzy_score x)")
    case True
    from snoc obtain ys zs where h: "xs = ys @ zs" "rev (bubble p (rev xs)) = ys @ p # zs"
      "\<forall>z\<in>set zs. d_gt (fuzzy_score p) (fuzzy_score z)"
      "ys \<noteq> [] \<longrightarrow> \<not> d_gt (fuzzy_score p) (fuzzy_score (last ys))"
      by blast
    have "xs @ [x] = ys @ (zs @ [x]) \<and> rev (bubble p (rev (xs @ [x]))) = ys @ p # (zs @ [x]) \<and>
      (\<forall>z\<in>set (zs @ [x]). d_gt (fuzzy_score p) (fuzzy_score z)) \<and>
      (ys \<noteq> [] \<longrightarrow> \<not> d_gt (fuzzy_score p) (fuzzy_score (last ys)))"
      using h True by simp
    then show ?thesis by blast
  next
    case False
    have "xs @ [x] = (xs @ [x]) @ [] \<and> rev (bubble p (rev (xs @ [x]))) = (xs @ [x]) @ p # [] \<and>
      (\<forall>z\<in>set []. d_gt (fuzzy_score p) (fuzzy_score z)) \<and>
      (xs @ [x] \<noteq> [] \<longrightarrow> \<not> d_gt (fuzzy_score p) (fuzzy_score (last (xs @ [x]))))"
      using False by simp
    then show ?thesis by blast
  qed
qed

text \<open>On a stored sequence in order, the split is the stable insertion.\<close>

lemma bubble_sorted:
  assumes srt: "non_increasing (map fuzzy_score xs)"
    and nn: "\<forall>x\<in>set xs. \<not> isnan (fuzzy_score x)" "\<not> isnan (fuzzy_score p)"
  shows "\<exists>ys zs. xs = ys @ zs \<and> rev (bubble p (rev xs)) = ys @ p # zs \<and>
     (\<forall>y\<in>set ys. d_le (fuzzy_score p) (fuzzy_score y)) \<and>
     (\<forall>z\<in>set zs. d_lt (fuzzy_score z) (fuzzy_score p)) \<and>
     non_increasing (map fuzzy_score (ys @ p # zs))"
proof -
  obtain ys zs where h: "xs = ys @ zs" "rev (bubble p (rev xs)) = ys @ p # zs"
      "\<forall>z\<in>set zs. d_gt (fuzzy_score p) (fuzzy_score z)"
      "ys \<noteq> [] \<longrightarrow> \<not> d_gt (fuzzy_score p) (fuzzy_score (last ys))"
    using bubble_split [of xs p] by blast
  have sy: "sorted_wrt (\<lambda>a b. d_le b a) (map fuzzy_score ys)"
    and sz: "sorted_wrt (\<lambda>a b. d_le b a) (map fuzzy_score zs)"
    and yz: "\<forall>y\<in>set ys. \<forall>z\<in>set zs. d_le (fuzzy_score z) (fuzzy_score y)"
    using srt unfolding non_increasing_def h(1) by (auto simp: sorted_wrt_append)
  have py: "d_le (fuzzy_score p) (fuzzy_score y)" if yin: "y \<in> set ys" for y
  proof -
    have ne: "ys \<noteq> []" using yin by auto
    have l: "d_le (fuzzy_score p) (fuzzy_score (last ys))"
      using h(4) ne nn h(1) last_in_set [OF ne]
      by (intro d_le_total) (auto simp: d_gt_def)
    show ?thesis
    proof (cases "y = last ys")
      case True
      then show ?thesis using l by simp
    next
      case False
      obtain i where i: "i < length ys" "ys ! i = y" using yin by (auto simp: in_set_conv_nth)
      have "i \<noteq> length ys - 1" using False i ne by (auto simp: last_conv_nth)
      then have "i < length ys - 1" using i by simp
      then have "d_le (fuzzy_score (ys ! (length ys - 1))) (fuzzy_score (ys ! i))"
        using sy ne by (simp add: sorted_wrt_iff_nth_less)
      then have "d_le (fuzzy_score (last ys)) (fuzzy_score y)"
        using i ne by (simp add: last_conv_nth)
      then show ?thesis using l d_le_trans by blast
    qed
  qed
  have zp: "d_lt (fuzzy_score z) (fuzzy_score p)" if "z \<in> set zs" for z
    using h(3) that by (simp add: d_gt_def)
  have "non_increasing (map fuzzy_score (ys @ p # zs))"
    unfolding non_increasing_def using sy sz yz py zp
    by (auto simp: sorted_wrt_append d_le_def)
  then show ?thesis using h(1,2) py zp by blast
qed

subsection \<open>Scoring and insertion\<close>

lemma monitor_field_stability_cases:
  "monitor_field_stability hf = Num 1 \<or> monitor_field_stability hf = Num (1 / 2)"
  by (simp add: monitor_field_stability_def Let_def)

lemma fuzzy_score_point_not_nan: "\<not> isnan (fuzzy_score_point p hf)"
  using monitor_field_stability_cases [of hf]
  unfolding fuzzy_score_point_def Let_def higgs_dampen_def d_gt_def
    FUZZY_CONFIDENCE_THRESHOLD_def
  by (cases "d_div (energy p) (Num (HIGGS_ENERGY_FACTOR * real HIGGS_FIELD_DIM))";
      cases "d_div (mass p) (Num 2)")
     (auto simp: signed_inf_def)

lemma fuzzy_score_point_le_1: "d_le (fuzzy_score_point p hf) (Num 1)"
  using monitor_field_stability_cases [of hf]
  unfolding fuzzy_score_point_def Let_def higgs_dampen_def d_gt_def
    FUZZY_CONFIDENCE_THRESHOLD_def d_le_def
  by (cases "d_div (energy p) (Num (HIGGS_ENERGY_FACTOR * real HIGGS_FIELD_DIM))";
      cases "d_div (mass p) (Num 2)")
     (auto simp: signed_inf_def)

lemma fuzzy_score_point_ge_0:
  assumes "energy p = Num e" "0 \<le> e" "\<not> d_lt (mass p) (Num 0)"
  shows "d_le (Num 0) (fuzzy_score_point p hf)"
proof -
  have c: "0 < HIGGS_ENERGY_FACTOR * real HIGGS_FIELD_DIM"
    by (simp add: HIGGS_ENERGY_FACTOR_def HIGGS_FIELD_DIM_def TICKSTACK_DIM_def)
  show ?thesis
    using monitor_field_stability_cases [of hf] assms c
    unfolding fuzzy_score_point_def Let_def higgs_dampen_def d_gt_def
      FUZZY_CONFIDENCE_THRESHOLD_def d_le_def
    by (cases "mass p")
       (auto simp: signed_inf_def zero_le_mult_iff zero_le_divide_iff)
qed

lemma add_higgs_point_accepted:
  assumes "point_count hf < HIGGS_FIELD_SIZE" "point_count hf < length (points hf)"
    and "\<not> isnan (vector_magnitude cs)" "\<not> isinf (vector_magnitude cs)"
  shows "add_higgs_point hf (Some cs) m (Some tag) =
     (hf\<lparr>point_count := Suc (point_count hf),
         points := rev (bubble (new_point hf cs m tag) (rev (stored hf)))
                   @ drop (Suc (point_count hf)) (points hf),
         tick_stack := PUSH_LITERAL (tick_stack hf) cs\<rparr>, [])"
  using assms
  unfolding add_higgs_point_def new_point_def stored_def
  by (simp add: Let_def sort_loop_spec)

text \<open>The three ways a call is turned down.\<close>

lemma add_higgs_point_null:
  "crds = None \<or> tag_p = None \<Longrightarrow>
   add_higgs_point hf crds m tag_p = (hf, [''Invalid input in add_higgs_point''])"
  by (auto simp: add_higgs_point_def split: option.splits)

lemma add_higgs_point_full:
  "HIGGS_FIELD_SIZE \<le> point_count hf \<Longrightarrow>
   add_higgs_point hf crds m tag_p = (hf, [''Invalid input in add_higgs_point''])"
  by (auto simp: add_higgs_point_def split: option.splits)

lemma add_higgs_point_bad_magnitude:
  assumes "point_count hf < HIGGS_FIELD_SIZE"
    and "isnan (vector_magnitude cs) \<or> isinf (vector_magnitude cs)"
  shows "add_higgs_point hf (Some cs) m (Some tag) =
     (hf\<lparr>points := (points hf)[point_count hf :=
            (points hf ! point_count hf)\<lparr>field := take HIGGS_FIELD_DIM cs\<rparr>]\<rparr>,
      [''Invalid magnitude in add_higgs_point''])"
  using assms by (auto simp: add_higgs_point_def Let_def)

lemma new_point_fields:
  "field (new_point hf cs m tag) = take HIGGS_FIELD_DIM cs"
  "energy (new_point hf cs m tag) = d_mul (vector_magnitude cs) (Num HIGGS_ENERGY_FACTOR)"
  "mass (new_point hf cs m tag) = m"
  "is_interacting (new_point hf cs m tag) = 1"
  "insert_id (new_point hf cs m tag) = take 31 tag"
  "\<not> isnan (fuzzy_score (new_point hf cs m tag))"
  "d_le (fuzzy_score (new_point hf cs m tag)) (Num 1)"
  by (simp_all add: new_point_def Let_def fuzzy_score_point_not_nan fuzzy_score_point_le_1)

lemma stored_accepted:
  assumes "point_count hf < length (points hf)"
  shows "stored (hf\<lparr>point_count := Suc (point_count hf),
         points := rev (bubble p (rev (stored hf))) @ drop (Suc (point_count hf)) (points hf),
         tick_stack := ts\<rparr>) = rev (bubble p (rev (stored hf)))"
  using assms by (simp add: stored_def)

subsection \<open>The invariant and the rejected calls\<close>

lemma registry_ok_init:
  "length (points raw) = HIGGS_FIELD_SIZE \<Longrightarrow> registry_ok (init_higgs_field raw)"
  by (simp add: registry_ok_def init_higgs_field_def stored_def non_increasing_def)

text \<open>What a call leaves: four cases, by the checks of the source in their order.\<close>

lemma add_higgs_point_result:
  assumes ok: "registry_ok hf"
  shows "(snd (add_higgs_point hf crds m tag_p) \<noteq> [] \<and>
          point_count (fst (add_higgs_point hf crds m tag_p)) = point_count hf \<and>
          length (points (fst (add_higgs_point hf crds m tag_p))) = length (points hf) \<and>
          stored (fst (add_higgs_point hf crds m tag_p)) = stored hf \<and>
          tick_stack (fst (add_higgs_point hf crds m tag_p)) = tick_stack hf \<and>
          coupling_factor (fst (add_higgs_point hf crds m tag_p)) = coupling_factor hf)
       \<or> (\<exists>cs tag ys zs. crds = Some cs \<and> tag_p = Some tag \<and>
          point_count hf < HIGGS_FIELD_SIZE \<and>
          \<not> isnan (vector_magnitude cs) \<and> \<not> isinf (vector_magnitude cs) \<and>
          snd (add_higgs_point hf crds m tag_p) = [] \<and>
          point_count (fst (add_higgs_point hf crds m tag_p)) = Suc (point_count hf) \<and>
          length (points (fst (add_higgs_point hf crds m tag_p))) = length (points hf) \<and>
          tick_stack (fst (add_higgs_point hf crds m tag_p)) = PUSH_LITERAL (tick_stack hf) cs \<and>
          coupling_factor (fst (add_higgs_point hf crds m tag_p)) = coupling_factor hf \<and>
          stored hf = ys @ zs \<and>
          stored (fst (add_higgs_point hf crds m tag_p)) = ys @ new_point hf cs m tag # zs \<and>
          (\<forall>y\<in>set ys. d_le (fuzzy_score (new_point hf cs m tag)) (fuzzy_score y)) \<and>
          (\<forall>z\<in>set zs. d_lt (fuzzy_score z) (fuzzy_score (new_point hf cs m tag))) \<and>
          non_increasing (map fuzzy_score (ys @ new_point hf cs m tag # zs)))"
proof -
  consider (null) "crds = None \<or> tag_p = None"
    | (full) "HIGGS_FIELD_SIZE \<le> point_count hf"
    | (bad) cs tag where "crds = Some cs" "tag_p = Some tag" "point_count hf < HIGGS_FIELD_SIZE"
        "isnan (vector_magnitude cs) \<or> isinf (vector_magnitude cs)"
    | (good) cs tag where "crds = Some cs" "tag_p = Some tag" "point_count hf < HIGGS_FIELD_SIZE"
        "\<not> isnan (vector_magnitude cs)" "\<not> isinf (vector_magnitude cs)"
    by (cases crds; cases tag_p) force+
  then show ?thesis
  proof cases
    case null
    then show ?thesis by (simp add: add_higgs_point_null)
  next
    case full
    then show ?thesis by (simp add: add_higgs_point_full)
  next
    case bad
    then show ?thesis
      by (simp add: add_higgs_point_bad_magnitude stored_def)
  next
    case good
    have lt: "point_count hf < length (points hf)"
      using ok good(3) by (simp add: registry_ok_def)
    let ?p = "new_point hf cs m tag"
    have "non_increasing (map fuzzy_score (stored hf))"
      "\<forall>x\<in>set (stored hf). \<not> isnan (fuzzy_score x)"
      using ok by (auto simp: registry_ok_def)
    then obtain ys zs where h: "stored hf = ys @ zs"
      "rev (bubble ?p (rev (stored hf))) = ys @ ?p # zs"
      "\<forall>y\<in>set ys. d_le (fuzzy_score ?p) (fuzzy_score y)"
      "\<forall>z\<in>set zs. d_lt (fuzzy_score z) (fuzzy_score ?p)"
      "non_increasing (map fuzzy_score (ys @ ?p # zs))"
      using bubble_sorted [of "stored hf" ?p] new_point_fields(6) [of hf cs m tag] by blast
    have len: "length (stored hf) = point_count hf"
      using lt by (simp add: stored_def)
    have e: "add_higgs_point hf crds m tag_p =
      (hf\<lparr>point_count := Suc (point_count hf),
         points := rev (bubble ?p (rev (stored hf))) @ drop (Suc (point_count hf)) (points hf),
         tick_stack := PUSH_LITERAL (tick_stack hf) cs\<rparr>, [])"
      using add_higgs_point_accepted [OF good(3) lt good(4,5)] good(1,2) by simp
    have st: "stored (fst (add_higgs_point hf crds m tag_p)) = ys @ ?p # zs"
      using stored_accepted [OF lt, where p = "?p" and ts = "PUSH_LITERAL (tick_stack hf) cs"] h(2)
      unfolding e by simp
    have "length (points (fst (add_higgs_point hf crds m tag_p))) = length (points hf)"
      unfolding e using lt len by simp
    then show ?thesis
      using good h(1,3,4,5) st unfolding e by (intro disjI2) auto
  qed
qed


lemma registry_ok_add:
  assumes ok: "registry_ok hf"
  shows "registry_ok (fst (add_higgs_point hf crds m tag_p))"
  using add_higgs_point_result [OF ok, of crds m tag_p]
proof (elim disjE exE conjE)
  assume "point_count (fst (add_higgs_point hf crds m tag_p)) = point_count hf"
    "length (points (fst (add_higgs_point hf crds m tag_p))) = length (points hf)"
    "stored (fst (add_higgs_point hf crds m tag_p)) = stored hf"
  then show ?thesis using ok by (simp add: registry_ok_def)
next
  fix cs tag ys zs
  assume a: "point_count hf < HIGGS_FIELD_SIZE"
    "point_count (fst (add_higgs_point hf crds m tag_p)) = Suc (point_count hf)"
    "length (points (fst (add_higgs_point hf crds m tag_p))) = length (points hf)"
    "stored hf = ys @ zs"
    "stored (fst (add_higgs_point hf crds m tag_p)) = ys @ new_point hf cs m tag # zs"
    "non_increasing (map fuzzy_score (ys @ new_point hf cs m tag # zs))"
  have "\<forall>p\<in>set (ys @ zs). \<not> isnan (fuzzy_score p) \<and> d_le (fuzzy_score p) (Num 1)"
    using ok a(4) by (simp add: registry_ok_def)
  then show ?thesis
    using ok a new_point_fields(6,7) [of hf cs m tag]
    by (auto simp: registry_ok_def)
qed

lemma insert_all_Cons:
  "insert_all hf ((crds, m, tag_p) # reqs) =
   insert_all (fst (add_higgs_point hf crds m tag_p)) reqs"
  by (simp add: insert_all_def)

lemma registry_ok_insert_all:
  "registry_ok hf \<Longrightarrow> registry_ok (insert_all hf reqs)"
proof (induction reqs arbitrary: hf)
  case Nil
  then show ?case by (simp add: insert_all_def)
next
  case (Cons r reqs)
  obtain crds m tag_p where r: "r = (crds, m, tag_p)" by (cases r)
  show ?case
    unfolding r insert_all_Cons
    by (rule Cons.IH) (rule registry_ok_add [OF Cons.prems])
qed

lemma add_higgs_point_well_formed:
  assumes ok: "registry_ok hf" and wf: "well_formed_args (crds, m, tag_p)"
    and room: "point_count hf < HIGGS_FIELD_SIZE"
  shows "point_count (fst (add_higgs_point hf crds m tag_p)) = Suc (point_count hf)"
proof -
  obtain cs tag where c: "crds = Some cs" "tag_p = Some tag"
    "\<not> isnan (vector_magnitude cs)" "\<not> isinf (vector_magnitude cs)"
    using wf by (cases crds; cases tag_p) auto
  have "point_count hf < length (points hf)"
    using ok room by (simp add: registry_ok_def)
  then show ?thesis
    using add_higgs_point_accepted [OF room _ c(3,4), of m tag] c(1,2) by simp
qed

lemma insert_all_count:
  "registry_ok hf \<Longrightarrow> list_all well_formed_args reqs \<Longrightarrow>
   point_count hf + length reqs \<le> HIGGS_FIELD_SIZE \<Longrightarrow>
   point_count (insert_all hf reqs) = point_count hf + length reqs"
proof (induction reqs arbitrary: hf)
  case Nil
  then show ?case by (simp add: insert_all_def)
next
  case (Cons r reqs)
  obtain crds m tag_p where r: "r = (crds, m, tag_p)" by (cases r)
  have wf: "well_formed_args (crds, m, tag_p)" "list_all well_formed_args reqs"
    using Cons.prems(2) r by auto
  have room: "point_count hf < HIGGS_FIELD_SIZE" using Cons.prems(3) by simp
  have c: "point_count (fst (add_higgs_point hf crds m tag_p)) = Suc (point_count hf)"
    by (rule add_higgs_point_well_formed [OF Cons.prems(1) wf(1) room])
  have "point_count (insert_all (fst (add_higgs_point hf crds m tag_p)) reqs)
      = point_count (fst (add_higgs_point hf crds m tag_p)) + length reqs"
    using Cons.prems(3) c
    by (intro Cons.IH registry_ok_add [OF Cons.prems(1)] wf(2)) simp
  then show ?case unfolding r insert_all_Cons using c by simp
qed

text \<open>
  C5, as amended.  The count never exceeds the capacity of 100, whatever the sequence
  of calls.  After 100 calls that pass the checks the count is 100, and the 101st
  call, whatever its arguments, is turned down with the report
  \<^verbatim>\<open>Invalid input in add_higgs_point\<close>, the report of a NULL argument, and returns the
  registry as it was: no stored point is evicted.
\<close>

theorem capacity_enforced:
  assumes "length (points raw) = HIGGS_FIELD_SIZE"
  shows "point_count (insert_all (init_higgs_field raw) reqs) \<le> HIGGS_FIELD_SIZE \<and>
    (length reqs = HIGGS_FIELD_SIZE \<and> list_all well_formed_args reqs \<longrightarrow>
       point_count (insert_all (init_higgs_field raw) reqs) = HIGGS_FIELD_SIZE \<and>
       add_higgs_point (insert_all (init_higgs_field raw) reqs) crds m tag_p =
         (insert_all (init_higgs_field raw) reqs, [''Invalid input in add_higgs_point'']))"
proof -
  have ok: "registry_ok (init_higgs_field raw)"
    by (rule registry_ok_init [OF assms])
  have z: "point_count (init_higgs_field raw) = 0"
    by (simp add: init_higgs_field_def)
  have 1: "point_count (insert_all (init_higgs_field raw) reqs) \<le> HIGGS_FIELD_SIZE"
    using registry_ok_insert_all [OF ok, of reqs] by (simp add: registry_ok_def)
  have 2: "point_count (insert_all (init_higgs_field raw) reqs) = HIGGS_FIELD_SIZE"
    if "length reqs = HIGGS_FIELD_SIZE" "list_all well_formed_args reqs"
    using insert_all_count [OF ok that(2)] that(1) z by simp
  show ?thesis using 1 2 by (simp add: add_higgs_point_full)
qed


lemma foldl_squares_zeros:
  "foldl (\<lambda>s x. d_add s (d_mul x x)) (Num a) (replicate n (Num 0)) = Num a"
  by (induction n) auto

lemma vector_magnitude_axis: "vector_magnitude (axis_vector x) = Num \<bar>x\<bar>"
  by (simp add: vector_magnitude_def axis_vector_def TICKSTACK_DIM_def foldl_squares_zeros)

lemma well_formed_axis: "well_formed_args (Some (axis_vector x), m, Some tag)"
  by (simp add: vector_magnitude_axis)

lemma init_zero_ok: "registry_ok (init_higgs_field zero_field)"
  by (rule registry_ok_init) (simp add: zero_field_def HIGGS_FIELD_SIZE_def)

theorem capacity_enforced_witness:
  "point_count (insert_all (init_higgs_field zero_field)
      (replicate 100 (Some (axis_vector 11), Num 2, Some ''p''))) = 100 \<and>
   add_higgs_point (insert_all (init_higgs_field zero_field)
      (replicate 100 (Some (axis_vector 11), Num 2, Some ''p'')))
      (Some (axis_vector 3)) (Num 1) (Some ''q'') =
     (insert_all (init_higgs_field zero_field)
        (replicate 100 (Some (axis_vector 11), Num 2, Some ''p'')),
      [''Invalid input in add_higgs_point''])"
proof -
  have len: "length (points zero_field) = HIGGS_FIELD_SIZE"
    by (simp add: zero_field_def HIGGS_FIELD_SIZE_def)
  have reqs: "length (replicate 100 (Some (axis_vector 11), Num 2, Some ''p'')) = HIGGS_FIELD_SIZE \<and>
      list_all well_formed_args (replicate 100 (Some (axis_vector 11), Num 2, Some ''p''))"
    unfolding list_all_iff by (simp add: HIGGS_FIELD_SIZE_def vector_magnitude_axis)
  show ?thesis
    using capacity_enforced [OF len, of "replicate 100 (Some (axis_vector 11), Num 2, Some ''p'')"
      "Some (axis_vector 3)" "Num 1" "Some ''q''"] reqs
    by (simp add: HIGGS_FIELD_SIZE_def)
qed

text \<open>
  C5 as stated fails on the kind of the rejection.  The source has one test for the
  NULL arguments and the full registry together,
  \<^verbatim>\<open>!field || !coords || field->point_count >= HIGGS_FIELD_SIZE || !insert_id\<close>, and one
  report for it: the 101st call, with valid arguments, is reported as
  \<^verbatim>\<open>Invalid input in add_higgs_point\<close>, word for word as a call without coordinates on
  the empty registry is.  Nothing tells the caller that the capacity was exceeded.
\<close>

theorem full_registry_reports_invalid_input:
  "point_count (insert_all (init_higgs_field zero_field)
      (replicate 100 (Some (axis_vector 11), Num 2, Some ''p''))) = 100 \<and>
   snd (add_higgs_point (insert_all (init_higgs_field zero_field)
      (replicate 100 (Some (axis_vector 11), Num 2, Some ''p'')))
      (Some (axis_vector 3)) (Num 1) (Some ''q'')) = [''Invalid input in add_higgs_point''] \<and>
   snd (add_higgs_point (init_higgs_field zero_field) None (Num 1) (Some ''q''))
     = [''Invalid input in add_higgs_point''] \<and>
   point_count (init_higgs_field zero_field) = 0 \<and>
   snd (add_higgs_point (insert_all (init_higgs_field zero_field)
      (replicate 100 (Some (axis_vector 11), Num 2, Some ''p'')))
      (Some (axis_vector 3)) (Num 1) (Some ''q''))
     = snd (add_higgs_point (init_higgs_field zero_field) None (Num 1) (Some ''q''))"
proof -
  have wf: "list_all well_formed_args (replicate 100 (Some (axis_vector 11), Num 2, Some ''p''))"
    unfolding list_all_iff by (simp add: vector_magnitude_axis)
  have z: "point_count (init_higgs_field zero_field) = 0"
    by (simp add: init_higgs_field_def)
  have c: "point_count (insert_all (init_higgs_field zero_field)
      (replicate 100 (Some (axis_vector 11), Num 2, Some ''p''))) = 100"
    using insert_all_count [OF init_zero_ok wf] z by (simp add: HIGGS_FIELD_SIZE_def)
  have "HIGGS_FIELD_SIZE \<le> point_count (insert_all (init_higgs_field zero_field)
      (replicate 100 (Some (axis_vector 11), Num 2, Some ''p'')))"
    unfolding c by (simp add: HIGGS_FIELD_SIZE_def)
  then show ?thesis
    using c z by (simp add: add_higgs_point_full add_higgs_point_null)
qed

text \<open>
  C6, as amended.  A call whose tag pointer or coordinate pointer is NULL, or whose
  position has a NaN or infinite magnitude, is turned down with a report, and the
  count, every stored point, the tick stack and the coupling are as before the call.
  (On a bad magnitude the coordinates have already been copied into the free slot
  \<^verbatim>\<open>points[point_count]\<close>, which is not a stored point.)
\<close>

theorem rejected_insert_leaves_registry:
  assumes "tag_p = None \<or> crds = None \<or>
     (\<exists>cs. crds = Some cs \<and> (isnan (vector_magnitude cs) \<or> isinf (vector_magnitude cs)))"
  shows "(snd (add_higgs_point hf crds m tag_p) = [''Invalid input in add_higgs_point''] \<or>
          snd (add_higgs_point hf crds m tag_p) = [''Invalid magnitude in add_higgs_point'']) \<and>
     point_count (fst (add_higgs_point hf crds m tag_p)) = point_count hf \<and>
     stored (fst (add_higgs_point hf crds m tag_p)) = stored hf \<and>
     tick_stack (fst (add_higgs_point hf crds m tag_p)) = tick_stack hf \<and>
     coupling_factor (fst (add_higgs_point hf crds m tag_p)) = coupling_factor hf"
proof -
  consider (null) "crds = None \<or> tag_p = None"
    | (full) "HIGGS_FIELD_SIZE \<le> point_count hf"
    | (bad) cs tag where "crds = Some cs" "tag_p = Some tag" "point_count hf < HIGGS_FIELD_SIZE"
        "isnan (vector_magnitude cs) \<or> isinf (vector_magnitude cs)"
    using assms by (cases crds; cases tag_p) force+
  then show ?thesis
  proof cases
    case null
    then show ?thesis by (simp add: add_higgs_point_null)
  next
    case full
    then show ?thesis by (simp add: add_higgs_point_full)
  next
    case bad
    then show ?thesis by (simp add: add_higgs_point_bad_magnitude stored_def)
  qed
qed

lemma vector_magnitude_nan: "vector_magnitude (NaN # v) = NaN"
proof -
  have "foldl (\<lambda>s x. d_add s (d_mul x x)) NaN xs = NaN" for xs
    by (induction xs) auto
  then show ?thesis by (simp add: vector_magnitude_def TICKSTACK_DIM_def)
qed

theorem rejected_insert_leaves_registry_witness:
  "snd (add_higgs_point (init_higgs_field zero_field) (Some (NaN # replicate 10 (Num 0)))
          (Num 1) (Some ''a'')) = [''Invalid magnitude in add_higgs_point''] \<and>
   point_count (fst (add_higgs_point (init_higgs_field zero_field)
          (Some (NaN # replicate 10 (Num 0))) (Num 1) (Some ''a''))) = 0 \<and>
   snd (add_higgs_point (init_higgs_field zero_field) (Some (axis_vector 11))
          (Num 1) None) = [''Invalid input in add_higgs_point'']"
  using rejected_insert_leaves_registry [of "Some ''a''" "Some (NaN # replicate 10 (Num 0))"
      "init_higgs_field zero_field" "Num 1"]
    rejected_insert_leaves_registry [of None "Some (axis_vector 11)"
      "init_higgs_field zero_field" "Num 1"]
  by (simp add: vector_magnitude_nan add_higgs_point_def init_higgs_field_def zero_field_def
      HIGGS_FIELD_SIZE_def Let_def)

lemma first_insert:
  "add_higgs_point (init_higgs_field zero_field) (Some (axis_vector x)) m (Some tag) =
     ((init_higgs_field zero_field)\<lparr>point_count := 1,
        points := new_point (init_higgs_field zero_field) (axis_vector x) m tag
                  # replicate 99 zero_point,
        tick_stack := PUSH_LITERAL (tick_stack (init_higgs_field zero_field)) (axis_vector x)\<rparr>,
      [])"
proof -
  have "add_higgs_point (init_higgs_field zero_field) (Some (axis_vector x)) m (Some tag) =
     ((init_higgs_field zero_field)\<lparr>point_count := Suc (point_count (init_higgs_field zero_field)),
         points := rev (bubble (new_point (init_higgs_field zero_field) (axis_vector x) m tag)
                       (rev (stored (init_higgs_field zero_field))))
                   @ drop (Suc (point_count (init_higgs_field zero_field)))
                       (points (init_higgs_field zero_field)),
         tick_stack := PUSH_LITERAL (tick_stack (init_higgs_field zero_field)) (axis_vector x)\<rparr>, [])"
    by (rule add_higgs_point_accepted)
       (simp_all add: init_higgs_field_def zero_field_def HIGGS_FIELD_SIZE_def
          vector_magnitude_axis)
  then show ?thesis
    by (simp add: init_higgs_field_def zero_field_def stored_def)
qed

text \<open>
  C6 as stated fails on the empty tag: the source tests the tag pointer against NULL
  and never looks at the first character, so the empty string is a tag like any
  other.  The call is accepted, nothing is reported, and the point is stored with the
  empty tag.
\<close>

theorem empty_tag_is_accepted:
  "snd (add_higgs_point (init_higgs_field zero_field) (Some (axis_vector 11)) (Num 2)
          (Some [])) = [] \<and>
   point_count (fst (add_higgs_point (init_higgs_field zero_field) (Some (axis_vector 11))
          (Num 2) (Some []))) = 1 \<and>
   insert_id (hd (stored (fst (add_higgs_point (init_higgs_field zero_field)
          (Some (axis_vector 11)) (Num 2) (Some []))))) = []"
  by (simp add: first_insert stored_def new_point_fields)

subsection \<open>The stored tag\<close>

text \<open>
  C10.  An accepted call stores the first 31 characters of the tag
  (\<^verbatim>\<open>strncpy(..., 31)\<close> and the terminator at index 31): the new point \<open>p\<close> lands
  among the points stored before, which keep their order; a tag of at most 31
  characters is stored as it is, and a longer one is accepted and cut to 31.
\<close>

theorem stored_tag_is_truncated:
  assumes "registry_ok hf" "point_count hf < HIGGS_FIELD_SIZE"
    and "\<not> isnan (vector_magnitude cs)" "\<not> isinf (vector_magnitude cs)"
  shows "\<exists>ys zs p.
     snd (add_higgs_point hf (Some cs) m (Some tag)) = [] \<and>
     stored hf = ys @ zs \<and>
     stored (fst (add_higgs_point hf (Some cs) m (Some tag))) = ys @ p # zs \<and>
     insert_id p = take 31 tag \<and>
     (length tag \<le> 31 \<longrightarrow> insert_id p = tag) \<and>
     (31 < length tag \<longrightarrow> length (insert_id p) = 31)"
proof -
  have "snd (add_higgs_point hf (Some cs) m (Some tag)) = []"
    using add_higgs_point_accepted [OF assms(2) _ assms(3,4), of m tag] assms(1,2)
    by (simp add: registry_ok_def)
  then obtain ys zs where
    "stored hf = ys @ zs"
    "stored (fst (add_higgs_point hf (Some cs) m (Some tag))) = ys @ new_point hf cs m tag # zs"
    using add_higgs_point_result [OF assms(1), of "Some cs" m "Some tag"] by auto
  then show ?thesis
    using \<open>snd (add_higgs_point hf (Some cs) m (Some tag)) = []\<close>
      new_point_fields(5) [of hf cs m tag]
    by (intro exI [of _ ys] exI [of _ zs] exI [of _ "new_point hf cs m tag"]) auto
qed

theorem stored_tag_is_truncated_witness:
  "insert_id (hd (stored (fst (add_higgs_point (init_higgs_field zero_field)
      (Some (axis_vector 11)) (Num 2)
      (Some ''abcdefghijklmnopqrstuvwxyz0123456789''))))) = ''abcdefghijklmnopqrstuvwxyz01234'' \<and>
   insert_id (hd (stored (fst (add_higgs_point (init_higgs_field zero_field)
      (Some (axis_vector 11)) (Num 2) (Some ''point1''))))) = ''point1''"
proof -
  have s: "stored (init_higgs_field zero_field) = []"
    by (simp add: stored_def init_higgs_field_def)
  have r: "point_count (init_higgs_field zero_field) < HIGGS_FIELD_SIZE"
    by (simp add: init_higgs_field_def HIGGS_FIELD_SIZE_def)
  have m: "\<not> isnan (vector_magnitude (axis_vector 11))" "\<not> isinf (vector_magnitude (axis_vector 11))"
    by (simp_all add: vector_magnitude_axis)
  show ?thesis
    using stored_tag_is_truncated [OF init_zero_ok r m, of "Num 2" "''abcdefghijklmnopqrstuvwxyz0123456789''"]
      stored_tag_is_truncated [OF init_zero_ok r m, of "Num 2" "''point1''"]
    unfolding s by auto
qed

subsection \<open>The order of the stored points\<close>

text \<open>
  C2.  After any sequence of calls of \<^verbatim>\<open>add_higgs_point\<close> on an initialised field
  the stored scores, read from index 0, never increase.  A further call that is
  accepted (nothing reported) puts its point \<open>p\<close> between two parts \<open>ys\<close> and \<open>zs\<close>
  of the points stored before, which keep their order: every point before \<open>p\<close> has
  a score at least that of \<open>p\<close>, and every point after \<open>p\<close> a strictly smaller one,
  so \<open>p\<close> stands behind every earlier point of the same score.
\<close>

theorem priorities_non_increasing:
  assumes "length (points raw) = HIGGS_FIELD_SIZE"
  shows "non_increasing (map fuzzy_score (stored (insert_all (init_higgs_field raw) reqs))) \<and>
    (snd (add_higgs_point (insert_all (init_higgs_field raw) reqs) crds m tag_p) = [] \<longrightarrow>
       (\<exists>ys zs p.
          stored (insert_all (init_higgs_field raw) reqs) = ys @ zs \<and>
          stored (fst (add_higgs_point (insert_all (init_higgs_field raw) reqs) crds m tag_p))
            = ys @ p # zs \<and>
          (\<forall>y\<in>set ys. d_le (fuzzy_score p) (fuzzy_score y)) \<and>
          (\<forall>z\<in>set zs. d_lt (fuzzy_score z) (fuzzy_score p)) \<and>
          non_increasing (map fuzzy_score (ys @ p # zs))))"
proof -
  have ok: "registry_ok (insert_all (init_higgs_field raw) reqs)"
    by (intro registry_ok_insert_all registry_ok_init assms)
  show ?thesis
    using ok add_higgs_point_result [OF ok, of crds m tag_p]
    by (auto simp: registry_ok_def)
qed

subsection \<open>The stability signal\<close>

text \<open>The function reads the stored energies and nothing else.\<close>

lemma stability_variance:
  assumes "point_count hf \<le> length (points hf)"
  shows "monitor_field_stability hf =
     (if stored hf = [] then Num 1
      else if d_lt (double_variance (map energy (stored hf))) (fl (Num FIELD_STABILITY_THRESHOLD))
      then Num 1 else Num 0.5)"
proof -
  have len: "length (stored hf) = point_count hf"
    using assms by (simp add: stored_def)
  then have e: "(stored hf = []) = (point_count hf = 0)"
    using length_0_conv [of "stored hf"] by simp
  show ?thesis
    unfolding monitor_field_stability_def double_variance_def double_mean_def Let_def
      foldl_map length_map len e ..
qed

text \<open>
  Energies within \<open>10 ^ (-4)\<close> of a common value \<open>c\<close> of moderate size: the running
  sum after \<open>j\<close> terms is within \<open>j * (10 ^ (-4) + 10 ^ (-9))\<close> of \<open>j * c\<close>.
\<close>

lemma level_sum:
  assumes c: "\<bar>c\<bar> \<le> 1000"
  shows "\<forall>x\<in>set es. \<exists>r. x = Num r \<and> \<bar>r - c\<bar> \<le> 1 / 10000 \<Longrightarrow>
    j + length es \<le> 100 \<Longrightarrow>
    \<bar>a - real j * c\<bar> \<le> real j * (100001 / 1000000000) \<Longrightarrow>
    \<exists>s. foldl (\<lambda>m e. fl (d_add m e)) (Num a) es = Num s \<and>
        \<bar>s - real (j + length es) * c\<bar> \<le> real (j + length es) * (100001 / 1000000000)"
proof (induction es arbitrary: a j)
  case Nil
  then show ?case by simp
next
  case (Cons x es)
  obtain r where r: "x = Num r" "\<bar>r - c\<bar> \<le> 1 / 10000"
    using Cons.prems(1) by auto
  have j: "real j \<le> 99" using Cons.prems(2) by simp
  have "\<bar>real j * c\<bar> \<le> 99 * 1000"
    unfolding abs_mult using j c by (intro mult_mono) simp_all
  then have "\<bar>a + r\<bar> \<le> 1000000"
    using Cons.prems(3) r(2) c j by linarith
  then obtain y where y: "round_double (a + r) = Num y" "\<bar>y - (a + r)\<bar> \<le> 1 / 1000000000"
    using round_double_near by blast
  have "real (Suc j) * c = real j * c + c" by (simp add: algebra_simps)
  moreover have "\<bar>y - (real j * c + c)\<bar>
      \<le> real j * (100001 / 1000000000) + 100001 / 1000000000"
    using y(2) r(2) Cons.prems(3) by linarith
  ultimately have "\<bar>y - real (Suc j) * c\<bar> \<le> real (Suc j) * (100001 / 1000000000)"
    by (simp add: algebra_simps)
  moreover have "\<forall>x\<in>set es. \<exists>r. x = Num r \<and> \<bar>r - c\<bar> \<le> 1 / 10000" "Suc j + length es \<le> 100"
    using Cons.prems(1,2) by simp_all
  ultimately have "\<exists>s. foldl (\<lambda>m e. fl (d_add m e)) (Num y) es = Num s \<and>
        \<bar>s - real (Suc j + length es) * c\<bar> \<le> real (Suc j + length es) * (100001 / 1000000000)"
    by (intro Cons.IH)
  then show ?case using r(1) y(1) by simp
qed

lemma level_mean:
  assumes c: "\<bar>c\<bar> \<le> 1000"
    and es: "\<forall>x\<in>set es. \<exists>r. x = Num r \<and> \<bar>r - c\<bar> \<le> 1 / 10000"
    and n: "es \<noteq> []" "length es \<le> 100"
  shows "\<exists>mu. double_mean es = Num mu \<and> \<bar>mu - c\<bar> \<le> 100002 / 1000000000"
proof -
  define n where "n = real (length es)"
  have n0: "1 \<le> n" using assms(3) by (cases es) (simp_all add: n_def)
  obtain s where s: "foldl (\<lambda>m e. fl (d_add m e)) (Num 0) es = Num s"
      "\<bar>s - n * c\<bar> \<le> n * (100001 / 1000000000)"
    using level_sum [OF c es, of 0 0] n(2) by (auto simp: n_def)
  have "\<bar>s / n - c\<bar> = \<bar>s - n * c\<bar> / n"
    using n0 by (simp add: field_simps abs_divide)
  also have "\<dots> \<le> n * (100001 / 1000000000) / n"
    using s(2) n0 by (intro divide_right_mono) simp_all
  finally have q: "\<bar>s / n - c\<bar> \<le> 100001 / 1000000000" using n0 by simp
  then have "\<bar>s / n\<bar> \<le> 1000000" using c by linarith
  then obtain mu where mu: "round_double (s / n) = Num mu" "\<bar>mu - s / n\<bar> \<le> 1 / 1000000000"
    using round_double_near by blast
  have "double_mean es = Num mu"
    using s(1) mu(1) n(1) by (simp add: double_mean_def n_def)
  moreover have "\<bar>mu - c\<bar> \<le> 100002 / 1000000000" using q mu(2) by linarith
  ultimately show ?thesis by blast
qed

text \<open>The running sum of the squared distances to such a mean stays small.\<close>

lemma level_squares:
  assumes c: "\<bar>c\<bar> \<le> 1000" and mu: "\<bar>mu - c\<bar> \<le> 100002 / 1000000000"
  shows "\<forall>x\<in>set es. \<exists>r. x = Num r \<and> \<bar>r - c\<bar> \<le> 1 / 10000 \<Longrightarrow>
    j + length es \<le> 100 \<Longrightarrow>
    \<bar>a\<bar> \<le> real j * (1 / 10000000) \<Longrightarrow>
    \<exists>v. foldl (\<lambda>v e. let diff = fl (d_sub e (Num mu)) in fl (d_add v (fl (d_mul diff diff))))
           (Num a) es = Num v \<and>
        \<bar>v\<bar> \<le> real (j + length es) * (1 / 10000000)"
proof (induction es arbitrary: a j)
  case Nil
  then show ?case by simp
next
  case (Cons x es)
  obtain r where r: "x = Num r" "\<bar>r - c\<bar> \<le> 1 / 10000"
    using Cons.prems(1) by auto
  have j: "real j \<le> 99" using Cons.prems(2) by simp
  have "\<bar>r - mu\<bar> \<le> 1000000" using r(2) mu by linarith
  then obtain d where d: "round_double (r - mu) = Num d" "\<bar>d - (r - mu)\<bar> \<le> 1 / 1000000000"
    using round_double_near by blast
  have d3: "\<bar>d\<bar> \<le> 3 / 10000" using d(2) r(2) mu by linarith
  have "\<bar>d\<bar> * \<bar>d\<bar> \<le> 3 / 10000 * (3 / 10000)"
    using d3 by (intro mult_mono) simp_all
  then have dd: "\<bar>d * d\<bar> \<le> 9 / 100000000" by (simp add: abs_mult)
  then have "\<bar>d * d\<bar> \<le> 1000000" by linarith
  then obtain q where q: "round_double (d * d) = Num q" "\<bar>q - d * d\<bar> \<le> 1 / 1000000000"
    using round_double_near by blast
  have q1: "\<bar>q\<bar> \<le> 91 / 1000000000" using q(2) dd by linarith
  have "\<bar>a + q\<bar> \<le> 1000000" using Cons.prems(3) q1 j by linarith
  then obtain y where y: "round_double (a + q) = Num y" "\<bar>y - (a + q)\<bar> \<le> 1 / 1000000000"
    using round_double_near by blast
  have "\<bar>y\<bar> \<le> real j * (1 / 10000000) + 1 / 10000000"
    using y(2) q1 Cons.prems(3) by linarith
  then have "\<bar>y\<bar> \<le> real (Suc j) * (1 / 10000000)"
    by (simp add: algebra_simps)
  moreover have "\<forall>x\<in>set es. \<exists>r. x = Num r \<and> \<bar>r - c\<bar> \<le> 1 / 10000" "Suc j + length es \<le> 100"
    using Cons.prems(1,2) by simp_all
  ultimately have "\<exists>v. foldl (\<lambda>v e. let diff = fl (d_sub e (Num mu))
             in fl (d_add v (fl (d_mul diff diff)))) (Num y) es = Num v \<and>
        \<bar>v\<bar> \<le> real (Suc j + length es) * (1 / 10000000)"
    by (intro Cons.IH)
  then show ?case using r(1) d(1) q(1) y(1) by (simp add: d_sub_def Let_def)
qed

lemma level_variance:
  assumes c: "\<bar>c\<bar> \<le> 1000"
    and es: "\<forall>x\<in>set es. \<exists>r. x = Num r \<and> \<bar>r - c\<bar> \<le> 1 / 10000"
    and n: "es \<noteq> []" "length es \<le> 100"
  shows "\<exists>v. double_variance es = Num v \<and> \<bar>v\<bar> \<le> 101 / 1000000000"
proof -
  define n where "n = real (length es)"
  have n0: "1 \<le> n" using assms(3) by (cases es) (simp_all add: n_def)
  obtain mu where mu: "double_mean es = Num mu" "\<bar>mu - c\<bar> \<le> 100002 / 1000000000"
    using level_mean [OF assms] by blast
  obtain s where s: "foldl (\<lambda>v e. let diff = fl (d_sub e (Num mu))
        in fl (d_add v (fl (d_mul diff diff)))) (Num 0) es = Num s"
      "\<bar>s\<bar> \<le> n * (1 / 10000000)"
    using level_squares [OF c mu(2) es, of 0 0] n(2) by (auto simp: n_def)
  have "\<bar>s / n\<bar> = \<bar>s\<bar> / n" using n0 by simp
  also have "\<dots> \<le> n * (1 / 10000000) / n"
    using s(2) n0 by (intro divide_right_mono) simp_all
  finally have q: "\<bar>s / n\<bar> \<le> 1 / 10000000" using n0 by simp
  then have "\<bar>s / n\<bar> \<le> 1000000" by linarith
  then obtain v where v: "round_double (s / n) = Num v" "\<bar>v - s / n\<bar> \<le> 1 / 1000000000"
    using round_double_near by blast
  have "double_variance es = Num v"
    using s(1) v(1) n(1) by (simp add: double_variance_def mu(1) n_def)
  moreover have "\<bar>v\<bar> \<le> 101 / 1000000000" using q v(2) by linarith
  ultimately show ?thesis by blast
qed

text \<open>
  Near-equal energies of moderate size give 1.0: at most 100 stored points, every
  energy within \<open>10 ^ (-4)\<close> of a common value of at most 1000.
\<close>

lemma stability_near_level:
  assumes le: "point_count hf \<le> length (points hf)" and n: "point_count hf \<le> 100"
    and c: "\<bar>c\<bar> \<le> 1000"
    and es: "\<forall>p\<in>set (stored hf). \<exists>r. energy p = Num r \<and> \<bar>r - c\<bar> \<le> 1 / 10000"
  shows "monitor_field_stability hf = Num 1"
proof (cases "stored hf = []")
  case True
  then show ?thesis by (simp add: stability_variance [OF le])
next
  case False
  have "length (stored hf) \<le> 100" using n by (simp add: stored_def)
  moreover have "\<forall>x\<in>set (map energy (stored hf)). \<exists>r. x = Num r \<and> \<bar>r - c\<bar> \<le> 1 / 10000"
    using es by simp
  ultimately obtain v where v: "double_variance (map energy (stored hf)) = Num v"
      "\<bar>v\<bar> \<le> 101 / 1000000000"
    using level_variance [OF c, of "map energy (stored hf)"] False by auto
  obtain t where t: "fl (Num FIELD_STABILITY_THRESHOLD) = Num t" "999 / 1000000000 \<le> t"
    using threshold_double by blast
  have "v < t" using v(2) t(2) by linarith
  then show ?thesis using False t(1) by (simp add: stability_variance [OF le] v(1))
qed

lemma stability_level:
  assumes "point_count hf \<le> length (points hf)" "point_count hf \<le> 100" "\<bar>e\<bar> \<le> 1000"
    and "\<forall>p\<in>set (stored hf). energy p = Num e"
  shows "monitor_field_stability hf = Num 1"
  using assms(4) by (intro stability_near_level [OF assms(1,2,3)]) simp

text \<open>
  C7, as amended.  \<^verbatim>\<open>monitor_field_stability\<close> answers 1.0 or 0.5 and nothing else, and
  it answers 1.0 exactly when the registry is empty or the variance of the stored
  energies, as the two loops compute it in doubles (every sum, difference, product
  and quotient rounded), is below the tolerance.  Near-equal energies of moderate size
  give 1.0: at most 100 stored energies, each within \<open>10 ^ (-4)\<close> of a common value of
  at most 1000.
\<close>

theorem stability_two_levels:
  "(monitor_field_stability hf = Num 1 \<or> monitor_field_stability hf = Num 0.5) \<and>
   (point_count hf \<le> length (points hf) \<longrightarrow>
      (monitor_field_stability hf = Num 1 \<longleftrightarrow>
         stored hf = [] \<or>
         d_lt (double_variance (map energy (stored hf))) (fl (Num FIELD_STABILITY_THRESHOLD))) \<and>
      (point_count hf \<le> HIGGS_FIELD_SIZE \<and> \<bar>c\<bar> \<le> 1000 \<and>
       (\<forall>p\<in>set (stored hf). \<exists>r. energy p = Num r \<and> \<bar>r - c\<bar> \<le> 1 / 10000) \<longrightarrow>
         monitor_field_stability hf = Num 1))"
proof -
  have 1: "monitor_field_stability hf = Num 1 \<or> monitor_field_stability hf = Num 0.5"
    using monitor_field_stability_cases [of hf] by simp
  have 2: "monitor_field_stability hf = Num 1 \<longleftrightarrow>
         stored hf = [] \<or>
         d_lt (double_variance (map energy (stored hf))) (fl (Num FIELD_STABILITY_THRESHOLD))"
    if "point_count hf \<le> length (points hf)"
    by (simp add: stability_variance [OF that])
  have 3: "monitor_field_stability hf = Num 1"
    if "point_count hf \<le> length (points hf)" "point_count hf \<le> HIGGS_FIELD_SIZE" "\<bar>c\<bar> \<le> 1000"
      "\<forall>p\<in>set (stored hf). \<exists>r. energy p = Num r \<and> \<bar>r - c\<bar> \<le> 1 / 10000"
    using that(2) by (intro stability_near_level [OF that(1) _ that(3,4)])
      (simp add: HIGGS_FIELD_SIZE_def)
  show ?thesis using 1 2 3 by blast
qed

text \<open>
  Three energies of 1 give 1.0.  With an outlier, the energies 2, 2, 2 and 6, every
  step is exact: the mean is 3, the variance as computed is 3, and the answer is 0.5.
\<close>

lemma outlier_variance: "double_variance [Num 2, Num 2, Num 2, Num 6] = Num 3"
  by (simp add: double_variance_def double_mean_def d_sub_def Let_def)

theorem stability_two_levels_witness:
  "monitor_field_stability
     \<lparr>points = [zero_point\<lparr>energy := Num 1\<rparr>, zero_point\<lparr>energy := Num 1\<rparr>,
                zero_point\<lparr>energy := Num 1\<rparr>],
      point_count = 3, tick_stack = tick_stack zero_field, coupling_factor = Num 0\<rparr> = Num 1 \<and>
   monitor_field_stability
     \<lparr>points = [zero_point\<lparr>energy := Num 2\<rparr>, zero_point\<lparr>energy := Num 2\<rparr>,
                zero_point\<lparr>energy := Num 2\<rparr>, zero_point\<lparr>energy := Num 6\<rparr>],
      point_count = 4, tick_stack = tick_stack zero_field, coupling_factor = Num 0\<rparr> = Num 0.5"
proof -
  let ?eq = "\<lparr>points = [zero_point\<lparr>energy := Num 1\<rparr>, zero_point\<lparr>energy := Num 1\<rparr>,
                zero_point\<lparr>energy := Num 1\<rparr>],
      point_count = 3, tick_stack = tick_stack zero_field, coupling_factor = Num 0\<rparr>"
  let ?out = "\<lparr>points = [zero_point\<lparr>energy := Num 2\<rparr>, zero_point\<lparr>energy := Num 2\<rparr>,
                zero_point\<lparr>energy := Num 2\<rparr>, zero_point\<lparr>energy := Num 6\<rparr>],
      point_count = 4, tick_stack = tick_stack zero_field, coupling_factor = Num 0\<rparr>"
  obtain t where t: "fl (Num FIELD_STABILITY_THRESHOLD) = Num t" "t \<le> 1001 / 1000000000"
    using threshold_double by blast
  have a: "monitor_field_stability ?eq = Num 1"
    using stability_two_levels [of ?eq 1] by (simp add: stored_def HIGGS_FIELD_SIZE_def)
  have "\<not> d_lt (double_variance (map energy (stored ?out))) (fl (Num FIELD_STABILITY_THRESHOLD))"
    using t by (simp add: stored_def outlier_variance)
  then have "monitor_field_stability ?out \<noteq> Num 1"
    using stability_two_levels [of ?out 0] by (simp add: stored_def)
  then have b: "monitor_field_stability ?out = Num 0.5"
    using stability_two_levels [of ?out 0] by blast
  show ?thesis using a b by simp
qed

subsection \<open>Worked insertions\<close>

lemma stored_extended:
  "point_count hf < length (points hf) \<Longrightarrow>
   stored (hf\<lparr>point_count := point_count hf + 1, points := (points hf)[point_count hf := p]\<rparr>)
     = stored hf @ [p]"
  by (simp add: stored_def take_Suc_conv_app_nth)

text \<open>The score of the new point, when its energy is that of every stored point.\<close>

lemma new_point_score:
  assumes lt: "point_count hf < length (points hf)" and room: "point_count hf < HIGGS_FIELD_SIZE"
    and lev: "\<forall>p\<in>set (stored hf). energy p = Num (r * HIGGS_ENERGY_FACTOR)"
    and r: "vector_magnitude cs = Num r" and sz: "\<bar>r\<bar> \<le> 1000"
  shows "fuzzy_score (new_point hf cs m tag) =
     higgs_dampen
       (let energy_factor = Num (r / real HIGGS_FIELD_DIM);
            mass_factor = d_div m (Num 2);
            score = (if d_lt energy_factor mass_factor then energy_factor else mass_factor)
        in if d_lt score (Num 1) then score else Num 1)"
proof -
  define p where "p = (points hf ! point_count hf)\<lparr>field := take HIGGS_FIELD_DIM cs,
                energy := d_mul (vector_magnitude cs) (Num HIGGS_ENERGY_FACTOR),
                mass := m, is_interacting := 1\<rparr>"
  define hf' where "hf' = hf\<lparr>point_count := point_count hf + 1,
      points := (points hf)[point_count hf := p]\<rparr>"
  have st: "stored hf' = stored hf @ [p]"
    unfolding hf'_def by (rule stored_extended [OF lt])
  have "\<bar>r * HIGGS_ENERGY_FACTOR\<bar> \<le> \<bar>r\<bar> * 1"
    unfolding abs_mult by (intro mult_left_mono) (simp_all add: HIGGS_ENERGY_FACTOR_def)
  then have e: "\<bar>r * HIGGS_ENERGY_FACTOR\<bar> \<le> 1000" using sz by simp
  have "\<forall>q\<in>set (stored hf'). energy q = Num (r * HIGGS_ENERGY_FACTOR)"
    unfolding st using lev r by (simp add: p_def)
  moreover have "point_count hf' \<le> length (points hf')" "point_count hf' \<le> 100"
    using lt room by (simp_all add: hf'_def HIGGS_FIELD_SIZE_def)
  ultimately have s: "monitor_field_stability hf' = Num 1"
    using e by (intro stability_level [where e = "r * HIGGS_ENERGY_FACTOR"])
  have f: "HIGGS_ENERGY_FACTOR \<noteq> 0" "real HIGGS_FIELD_DIM \<noteq> 0"
    by (simp_all add: HIGGS_ENERGY_FACTOR_def HIGGS_FIELD_DIM_def TICKSTACK_DIM_def)
  have "fuzzy_score (new_point hf cs m tag) = fuzzy_score_point p hf'"
    by (simp add: new_point_def Let_def p_def hf'_def)
  also have "\<dots> = higgs_dampen
       (let energy_factor = Num (r / real HIGGS_FIELD_DIM);
            mass_factor = d_div m (Num 2);
            score = (if d_lt energy_factor mass_factor then energy_factor else mass_factor)
        in if d_lt score (Num 1) then score else Num 1)"
    unfolding fuzzy_score_point_def s using f by (simp add: p_def r Let_def)
  finally show ?thesis .
qed


lemma new_point_explicit:
  "new_point hf cs m tag =
     \<lparr>field = take HIGGS_FIELD_DIM cs,
      energy = d_mul (vector_magnitude cs) (Num HIGGS_ENERGY_FACTOR),
      mass = m, fuzzy_score = fuzzy_score (new_point hf cs m tag),
      is_interacting = 1, insert_id = take 31 tag\<rparr>"
  by (cases "points hf ! point_count hf") (simp add: new_point_def Let_def)

lemma take_axis_vector: "take HIGGS_FIELD_DIM (axis_vector x) = axis_vector x"
  by (simp add: axis_vector_def HIGGS_FIELD_DIM_def TICKSTACK_DIM_def)

text \<open>One accepted call on the axis vectors used in the examples below.\<close>

lemma insert_axis:
  assumes ok: "registry_ok hf" and room: "point_count hf < HIGGS_FIELD_SIZE"
    and lev: "\<forall>p\<in>set (stored hf). energy p = Num (\<bar>x\<bar> * HIGGS_ENERGY_FACTOR)"
    and sz: "\<bar>x\<bar> \<le> 1000"
  shows "snd (add_higgs_point hf (Some (axis_vector x)) m (Some tag)) = []"
    and "point_count (fst (add_higgs_point hf (Some (axis_vector x)) m (Some tag)))
         = Suc (point_count hf)"
    and "stored (fst (add_higgs_point hf (Some (axis_vector x)) m (Some tag))) =
     rev (bubble
       \<lparr>field = axis_vector x, energy = Num (\<bar>x\<bar> * HIGGS_ENERGY_FACTOR), mass = m,
        fuzzy_score = higgs_dampen
          (let score = (if d_lt (Num (\<bar>x\<bar> / 11)) (d_div m (Num 2))
                        then Num (\<bar>x\<bar> / 11) else d_div m (Num 2))
           in if d_lt score (Num 1) then score else Num 1),
        is_interacting = 1, insert_id = take 31 tag\<rparr>
       (rev (stored hf)))"
    and "tick_stack (fst (add_higgs_point hf (Some (axis_vector x)) m (Some tag)))
         = PUSH_LITERAL (tick_stack hf) (axis_vector x)"
    and "coupling_factor (fst (add_higgs_point hf (Some (axis_vector x)) m (Some tag)))
         = coupling_factor hf"
proof -
  have lt: "point_count hf < length (points hf)"
    using ok room by (simp add: registry_ok_def)
  have m: "\<not> isnan (vector_magnitude (axis_vector x))" "\<not> isinf (vector_magnitude (axis_vector x))"
    by (simp_all add: vector_magnitude_axis)
  note e = add_higgs_point_accepted [OF room lt m, where m = m and tag = tag]
  have sc: "fuzzy_score (new_point hf (axis_vector x) m tag) = higgs_dampen
          (let score = (if d_lt (Num (\<bar>x\<bar> / 11)) (d_div m (Num 2))
                        then Num (\<bar>x\<bar> / 11) else d_div m (Num 2))
           in if d_lt score (Num 1) then score else Num 1)"
    using new_point_score [OF lt room lev vector_magnitude_axis, where m = m and tag = tag] sz
    by (simp add: HIGGS_FIELD_DIM_def TICKSTACK_DIM_def Let_def)
  have np: "new_point hf (axis_vector x) m tag =
       \<lparr>field = axis_vector x, energy = Num (\<bar>x\<bar> * HIGGS_ENERGY_FACTOR), mass = m,
        fuzzy_score = higgs_dampen
          (let score = (if d_lt (Num (\<bar>x\<bar> / 11)) (d_div m (Num 2))
                        then Num (\<bar>x\<bar> / 11) else d_div m (Num 2))
           in if d_lt score (Num 1) then score else Num 1),
        is_interacting = 1, insert_id = take 31 tag\<rparr>"
    using new_point_explicit [of hf "axis_vector x" m tag]
    unfolding sc by (simp add: vector_magnitude_axis take_axis_vector)
  show "snd (add_higgs_point hf (Some (axis_vector x)) m (Some tag)) = []"
    and "point_count (fst (add_higgs_point hf (Some (axis_vector x)) m (Some tag)))
         = Suc (point_count hf)"
    and "tick_stack (fst (add_higgs_point hf (Some (axis_vector x)) m (Some tag)))
         = PUSH_LITERAL (tick_stack hf) (axis_vector x)"
    and "coupling_factor (fst (add_higgs_point hf (Some (axis_vector x)) m (Some tag)))
         = coupling_factor hf"
    unfolding e by simp_all
  show "stored (fst (add_higgs_point hf (Some (axis_vector x)) m (Some tag))) =
     rev (bubble
       \<lparr>field = axis_vector x, energy = Num (\<bar>x\<bar> * HIGGS_ENERGY_FACTOR), mass = m,
        fuzzy_score = higgs_dampen
          (let score = (if d_lt (Num (\<bar>x\<bar> / 11)) (d_div m (Num 2))
                        then Num (\<bar>x\<bar> / 11) else d_div m (Num 2))
           in if d_lt score (Num 1) then score else Num 1),
        is_interacting = 1, insert_id = take 31 tag\<rparr>
       (rev (stored hf)))"
    unfolding e fst_conv stored_accepted [OF lt] np ..
qed


text \<open>
  Three calls with the same position: \<open>a\<close> and \<open>c\<close> score 1, \<open>b\<close> scores 0.4;
  \<open>c\<close>, inserted last, passes \<open>b\<close> and stops behind \<open>a\<close>.
\<close>

theorem priorities_non_increasing_witness:
  "map insert_id (stored (insert_all (init_higgs_field zero_field)
      [(Some (axis_vector 11), Num 2, Some ''a''), (Some (axis_vector 11), Num 1, Some ''b''),
       (Some (axis_vector 11), Num 2, Some ''c'')])) = [''a'', ''c'', ''b''] \<and>
   map fuzzy_score (stored (insert_all (init_higgs_field zero_field)
      [(Some (axis_vector 11), Num 2, Some ''a''), (Some (axis_vector 11), Num 1, Some ''b''),
       (Some (axis_vector 11), Num 2, Some ''c'')])) = [Num 1, Num 1, Num 0.4] \<and>
   non_increasing (map fuzzy_score (stored (insert_all (init_higgs_field zero_field)
      [(Some (axis_vector 11), Num 2, Some ''a''), (Some (axis_vector 11), Num 1, Some ''b''),
       (Some (axis_vector 11), Num 2, Some ''c'')])))"
proof -
  define e where "e = 11 * HIGGS_ENERGY_FACTOR"
  define h0 where "h0 = init_higgs_field zero_field"
  define h1 where "h1 = fst (add_higgs_point h0 (Some (axis_vector 11)) (Num 2) (Some ''a''))"
  define h2 where "h2 = fst (add_higgs_point h1 (Some (axis_vector 11)) (Num 1) (Some ''b''))"
  define h3 where "h3 = fst (add_higgs_point h2 (Some (axis_vector 11)) (Num 2) (Some ''c''))"
  have ok0: "registry_ok h0" unfolding h0_def by (rule init_zero_ok)
  have ok1: "registry_ok h1" unfolding h1_def by (rule registry_ok_add [OF ok0])
  have ok2: "registry_ok h2" unfolding h2_def by (rule registry_ok_add [OF ok1])
  have s0: "stored h0 = []" "point_count h0 = 0"
    by (simp_all add: h0_def stored_def init_higgs_field_def)
  have s1: "stored h1 = [\<lparr>field = axis_vector 11, energy = Num e, mass = Num 2,
        fuzzy_score = Num 1, is_interacting = 1, insert_id = ''a''\<rparr>]" "point_count h1 = 1"
    unfolding h1_def
    using insert_axis(2,3) [OF ok0, of 11 "Num 2" "''a''"] s0
    by (simp_all add: HIGGS_FIELD_SIZE_def e_def higgs_dampen_def d_gt_def
        FUZZY_CONFIDENCE_THRESHOLD_def)
  have s2: "stored h2 = [\<lparr>field = axis_vector 11, energy = Num e, mass = Num 2,
        fuzzy_score = Num 1, is_interacting = 1, insert_id = ''a''\<rparr>,
      \<lparr>field = axis_vector 11, energy = Num e, mass = Num 1,
        fuzzy_score = Num 0.4, is_interacting = 1, insert_id = ''b''\<rparr>]" "point_count h2 = 2"
    unfolding h2_def
    using insert_axis(2,3) [OF ok1, of 11 "Num 1" "''b''"] s1
    by (simp_all add: HIGGS_FIELD_SIZE_def e_def higgs_dampen_def d_gt_def
        FUZZY_CONFIDENCE_THRESHOLD_def numeral_2_eq_2)
  have s3: "stored h3 = [\<lparr>field = axis_vector 11, energy = Num e, mass = Num 2,
        fuzzy_score = Num 1, is_interacting = 1, insert_id = ''a''\<rparr>,
      \<lparr>field = axis_vector 11, energy = Num e, mass = Num 2,
        fuzzy_score = Num 1, is_interacting = 1, insert_id = ''c''\<rparr>,
      \<lparr>field = axis_vector 11, energy = Num e, mass = Num 1,
        fuzzy_score = Num 0.4, is_interacting = 1, insert_id = ''b''\<rparr>]"
    unfolding h3_def
    using insert_axis(3) [OF ok2, of 11 "Num 2" "''c''"] s2
    by (simp_all add: HIGGS_FIELD_SIZE_def e_def higgs_dampen_def d_gt_def
        FUZZY_CONFIDENCE_THRESHOLD_def numeral_3_eq_3)
  have h3: "insert_all (init_higgs_field zero_field)
      [(Some (axis_vector 11), Num 2, Some ''a''), (Some (axis_vector 11), Num 1, Some ''b''),
       (Some (axis_vector 11), Num 2, Some ''c'')] = h3"
    by (simp add: insert_all_def h3_def h2_def h1_def h0_def)
  have len: "length (points zero_field) = HIGGS_FIELD_SIZE"
    by (simp add: zero_field_def HIGGS_FIELD_SIZE_def)
  show ?thesis
    using priorities_non_increasing [OF len, of "[(Some (axis_vector 11), Num 2, Some ''a''),
      (Some (axis_vector 11), Num 1, Some ''b''), (Some (axis_vector 11), Num 2, Some ''c'')]"]
    unfolding h3 s3 by simp
qed

subsection \<open>Equal energies of large magnitude\<close>

text \<open>Calls at one position store one energy.\<close>

lemma set_bubble: "set (bubble p xs) = insert p (set xs)"
  by (induction xs) auto

lemma insert_keeps_level:
  assumes ok: "registry_ok hf" and room: "point_count hf < HIGGS_FIELD_SIZE"
    and lev: "\<forall>p\<in>set (stored hf). energy p = Num (\<bar>x\<bar> * HIGGS_ENERGY_FACTOR)"
  shows "point_count (fst (add_higgs_point hf (Some (axis_vector x)) m (Some tag)))
         = Suc (point_count hf)"
    and "\<forall>p\<in>set (stored (fst (add_higgs_point hf (Some (axis_vector x)) m (Some tag)))).
           energy p = Num (\<bar>x\<bar> * HIGGS_ENERGY_FACTOR)"
proof -
  have lt: "point_count hf < length (points hf)"
    using ok room by (simp add: registry_ok_def)
  have m: "\<not> isnan (vector_magnitude (axis_vector x))" "\<not> isinf (vector_magnitude (axis_vector x))"
    by (simp_all add: vector_magnitude_axis)
  note e = add_higgs_point_accepted [OF room lt m, where m = m and tag = tag]
  show "point_count (fst (add_higgs_point hf (Some (axis_vector x)) m (Some tag)))
         = Suc (point_count hf)"
    unfolding e by simp
  show "\<forall>p\<in>set (stored (fst (add_higgs_point hf (Some (axis_vector x)) m (Some tag)))).
           energy p = Num (\<bar>x\<bar> * HIGGS_ENERGY_FACTOR)"
    unfolding e fst_conv stored_accepted [OF lt]
    using lev by (simp add: set_bubble new_point_fields vector_magnitude_axis)
qed

lemma insert_all_level:
  "registry_ok hf \<Longrightarrow>
   \<forall>p\<in>set (stored hf). energy p = Num (\<bar>x\<bar> * HIGGS_ENERGY_FACTOR) \<Longrightarrow>
   point_count hf + length reqs \<le> HIGGS_FIELD_SIZE \<Longrightarrow>
   \<forall>r\<in>set reqs. \<exists>m tag. r = (Some (axis_vector x), m, Some tag) \<Longrightarrow>
   point_count (insert_all hf reqs) = point_count hf + length reqs \<and>
   (\<forall>p\<in>set (stored (insert_all hf reqs)). energy p = Num (\<bar>x\<bar> * HIGGS_ENERGY_FACTOR))"
proof (induction reqs arbitrary: hf)
  case Nil
  then show ?case by (simp add: insert_all_def)
next
  case (Cons r reqs)
  obtain m tag where r: "r = (Some (axis_vector x), m, Some tag)"
    using Cons.prems(4) by auto
  let ?h = "fst (add_higgs_point hf (Some (axis_vector x)) m (Some tag))"
  have room: "point_count hf < HIGGS_FIELD_SIZE" using Cons.prems(3) by simp
  note k = insert_keeps_level [OF Cons.prems(1) room Cons.prems(2), of m tag]
  have "point_count (insert_all ?h reqs) = point_count ?h + length reqs \<and>
     (\<forall>p\<in>set (stored (insert_all ?h reqs)). energy p = Num (\<bar>x\<bar> * HIGGS_ENERGY_FACTOR))"
  proof (rule Cons.IH [OF registry_ok_add [OF Cons.prems(1)] k(2)])
    show "point_count ?h + length reqs \<le> HIGGS_FIELD_SIZE"
      using Cons.prems(3) k(1) by simp
    show "\<forall>r\<in>set reqs. \<exists>m tag. r = (Some (axis_vector x), m, Some tag)"
      using Cons.prems(4) by simp
  qed
  then show ?case unfolding r insert_all_Cons using k(1) by simp
qed

text \<open>
  The roundings met on three energies of 6180339887498950: twice the energy is a
  double; three times the energy, 18541019662496850, lies half-way between two doubles
  and goes to the even one, 18541019662496848; a third of that, between two
  neighbouring integers, goes to 6180339887498949.  Each difference to that mean is 1,
  and so is the variance.
\<close>

lemma large_roundings:
  "round_double 12360679774997900 = Num 12360679774997900"
  "round_double 18541019662496850 = Num 18541019662496848"
  "round_double (18541019662496848 / 3) = Num 6180339887498949"
  by (rule round_double_eval [where k = 53], simp_all add: pow2_def round_half_even_def)
     (rule round_double_eval [where k = 54], simp_all add: pow2_def round_half_even_def,
      rule round_double_eval [where k = 52], simp_all add: pow2_def round_half_even_def)

lemma large_variance:
  "double_variance [Num 6180339887498950, Num 6180339887498950, Num 6180339887498950] = Num 1"
  by (simp add: double_variance_def double_mean_def d_sub_def Let_def large_roundings)

text \<open>
  C7 as stated fails on equal energies of large magnitude.  Three accepted calls at the
  position \<open>(10\<^sup>1\<^sup>6, 0, \<dots>, 0)\<close> store three times the energy 6180339887498950.  The
  variance of these energies is 0, below the tolerance, and \<^verbatim>\<open>monitor_field_stability\<close>
  answers 0.5: the mean it computes is 6180339887498949 and the variance it computes
  is 1.
\<close>

theorem equal_energies_unstable:
  "map energy (stored (insert_all (init_higgs_field zero_field)
      [(Some (axis_vector 10000000000000000), Num 2, Some ''a''),
       (Some (axis_vector 10000000000000000), Num 2, Some ''b''),
       (Some (axis_vector 10000000000000000), Num 2, Some ''c'')]))
     = [Num 6180339887498950, Num 6180339887498950, Num 6180339887498950] \<and>
   energy_variance [6180339887498950, 6180339887498950, 6180339887498950] = 0 \<and>
   energy_variance [6180339887498950, 6180339887498950, 6180339887498950]
     < FIELD_STABILITY_THRESHOLD \<and>
   monitor_field_stability (insert_all (init_higgs_field zero_field)
      [(Some (axis_vector 10000000000000000), Num 2, Some ''a''),
       (Some (axis_vector 10000000000000000), Num 2, Some ''b''),
       (Some (axis_vector 10000000000000000), Num 2, Some ''c'')]) = Num 0.5"
proof -
  define h where "h = insert_all (init_higgs_field zero_field)
      [(Some (axis_vector 10000000000000000), Num 2, Some ''a''),
       (Some (axis_vector 10000000000000000), Num 2, Some ''b''),
       (Some (axis_vector 10000000000000000), Num 2, Some ''c'')]"
  have e: "\<bar>10000000000000000\<bar> * HIGGS_ENERGY_FACTOR = 6180339887498950"
    by (simp add: HIGGS_ENERGY_FACTOR_def)
  have s0: "stored (init_higgs_field zero_field) = []" "point_count (init_higgs_field zero_field) = 0"
    by (simp_all add: stored_def init_higgs_field_def)
  have s: "point_count h = 3" "\<forall>p\<in>set (stored h). energy p = Num 6180339887498950"
    unfolding h_def
    using insert_all_level [OF init_zero_ok, of 10000000000000000
      "[(Some (axis_vector 10000000000000000), Num 2, Some ''a''),
       (Some (axis_vector 10000000000000000), Num 2, Some ''b''),
       (Some (axis_vector 10000000000000000), Num 2, Some ''c'')]"]
    unfolding e s0 by (simp_all add: HIGGS_FIELD_SIZE_def)
  have "registry_ok h" unfolding h_def by (rule registry_ok_insert_all [OF init_zero_ok])
  then have le: "point_count h \<le> length (points h)"
    by (simp add: registry_ok_def)
  then have "length (stored h) = Suc (Suc (Suc 0))" using s(1) by (simp add: stored_def)
  then obtain p1 p2 p3 where st: "stored h = [p1, p2, p3]"
    by (auto simp: length_Suc_conv)
  have en: "map energy (stored h)
      = [Num 6180339887498950, Num 6180339887498950, Num 6180339887498950]"
    using s(2) unfolding st by simp
  obtain t where t: "fl (Num FIELD_STABILITY_THRESHOLD) = Num t" "t \<le> 1001 / 1000000000"
    using threshold_double by blast
  have ne: "stored h \<noteq> []" unfolding st by simp
  have "\<not> d_lt (Num 1) (fl (Num FIELD_STABILITY_THRESHOLD))"
    unfolding t(1) using t(2) by simp
  then have mfs: "monitor_field_stability h = Num 0.5"
    unfolding stability_variance [OF le] en large_variance using ne by simp
  have v: "energy_variance [6180339887498950, 6180339887498950, 6180339887498950] = 0"
    by (simp add: energy_variance_def)
  show ?thesis
    unfolding h_def [symmetric] en mfs v by (simp add: FIELD_STABILITY_THRESHOLD_def)
qed

section \<open>The interaction step\<close>

subsection \<open>What a step keeps\<close>

lemma map_update_same: "f x = f (xs ! i) \<Longrightarrow> map f (xs[i := x]) = map f xs"
  by (induction xs arbitrary: i) (auto split: nat.splits)

text \<open>One round of the loop, with its two assignments folded into one.\<close>

lemma interaction_body_unfold:
  "interaction_body xmv (Some (hf, errs)) i =
     (if d_lt (fuzzy_score (points hf ! i)) (Num FUZZY_CONFIDENCE_THRESHOLD)
      then Some (hf, errs)
      else case anchor (tick_stack hf) of
          None \<Rightarrow> None
        | Some (delta, harmonic) \<Rightarrow>
            if isnan delta \<or> isinf delta \<or> isnan harmonic \<or> isinf harmonic
            then Some (hf, errs @ [''Numerical instability in higgs_interaction''])
            else Some (hf\<lparr>points := (points hf)[i := (points hf ! i)
                   \<lparr>energy := d_mul (energy (points hf ! i))
                       (d_add (Num 1) (d_mul (coupling_factor hf) delta)),
                    mass := d_mul (mass (points hf ! i))
                       (d_add (Num 1) (d_mul (coupling_factor hf) harmonic))\<rparr>],
                 tick_stack := xmv (tick_stack hf) (Num 8)\<rparr>, errs))"
proof (cases "i < length (points hf)")
  case True
  then show ?thesis
    by (simp add: interaction_body_def anchor_def Let_def TICK_STACK_XFORM_def
        split: list.splits)
next
  case False
  then have "length (points hf) \<le> i" by simp
  then show ?thesis
    by (simp add: interaction_body_def anchor_def Let_def TICK_STACK_XFORM_def
        list_update_beyond split: list.splits)
qed

lemma interaction_body_None [simp]: "interaction_body xmv None i = None"
  by (simp add: interaction_body_def)

text \<open>What every round of the loop keeps, whatever the anchor and \<open>X_MULTIVAR\<close>.\<close>

lemma interaction_body_keeps:
  assumes "interaction_body xmv (Some (hf, errs)) i = Some (hf', errs')"
    and "\<And>ts v. Q ts \<Longrightarrow> Q (xmv ts v)"
  shows "point_count hf' = point_count hf \<and> length (points hf') = length (points hf) \<and>
     map fuzzy_score (points hf') = map fuzzy_score (points hf) \<and>
     map insert_id (points hf') = map insert_id (points hf) \<and>
     coupling_factor hf' = coupling_factor hf \<and> (Q (tick_stack hf) \<longrightarrow> Q (tick_stack hf'))"
  using assms unfolding interaction_body_unfold
  by (auto simp: map_update_same split: if_splits option.splits)

lemma interaction_loop_keeps:
  assumes "foldl (interaction_body xmv) (Some (hf, errs)) is = Some (hf', errs')"
    and q: "\<And>ts v. Q ts \<Longrightarrow> Q (xmv ts v)"
  shows "point_count hf' = point_count hf \<and> length (points hf') = length (points hf) \<and>
     map fuzzy_score (points hf') = map fuzzy_score (points hf) \<and>
     map insert_id (points hf') = map insert_id (points hf) \<and>
     coupling_factor hf' = coupling_factor hf \<and> (Q (tick_stack hf) \<longrightarrow> Q (tick_stack hf'))"
  using assms(1)
proof (induction "is" arbitrary: hf' errs' rule: rev_induct)
  case Nil
  then show ?case by simp
next
  case (snoc i "is")
  have "foldl (interaction_body xmv) (Some (hf, errs)) is \<noteq> None"
    using snoc.prems by (cases "foldl (interaction_body xmv) (Some (hf, errs)) is") auto
  then obtain hf1 errs1 where
    1: "foldl (interaction_body xmv) (Some (hf, errs)) is = Some (hf1, errs1)"
    by (cases "foldl (interaction_body xmv) (Some (hf, errs)) is") auto
  have 2: "interaction_body xmv (Some (hf1, errs1)) i = Some (hf', errs')"
    using snoc.prems 1 by simp
  show ?case
    using snoc.IH [OF 1] interaction_body_keeps [OF 2, of Q] q by auto
qed

lemma higgs_interaction_keeps:
  assumes "higgs_interaction cmp xmv hf = Some (hf', errs)"
    and "\<And>ts. Q ts \<Longrightarrow> Q (cmp ts)" "\<And>ts v. Q ts \<Longrightarrow> Q (xmv ts v)"
  shows "point_count hf' = point_count hf \<and> length (points hf') = length (points hf) \<and>
     map fuzzy_score (points hf') = map fuzzy_score (points hf) \<and>
     map insert_id (points hf') = map insert_id (points hf) \<and>
     (Q (tick_stack hf) \<longrightarrow> Q (tick_stack hf'))"
proof (cases "point_count hf < 2")
  case True
  then show ?thesis using assms(1) by (simp add: higgs_interaction_def)
next
  case False
  define hf2 where "hf2 = hf\<lparr>coupling_factor :=
      d_mul (Num HIGGS_COUPLING_BASE) (monitor_field_stability hf),
      tick_stack := cmp (tick_stack hf)\<rparr>"
  have "foldl (interaction_body xmv) (Some (hf2, [])) [0..<point_count hf] = Some (hf', errs)"
    using assms(1) False by (simp add: higgs_interaction_def Let_def hf2_def)
  from interaction_loop_keeps [OF this, of Q] assms(2,3)
  show ?thesis by (auto simp: hf2_def)
qed

lemma stored_scores_keep:
  "point_count hf' = point_count hf \<Longrightarrow>
   map fuzzy_score (points hf') = map fuzzy_score (points hf) \<Longrightarrow>
   map fuzzy_score (stored hf') = map fuzzy_score (stored hf)"
  by (simp add: stored_def take_map [symmetric])

lemma registry_ok_scores:
  "registry_ok hf \<longleftrightarrow>
     length (points hf) = HIGGS_FIELD_SIZE \<and> point_count hf \<le> HIGGS_FIELD_SIZE \<and>
     non_increasing (map fuzzy_score (stored hf)) \<and>
     (\<forall>s\<in>set (map fuzzy_score (stored hf)). \<not> isnan s \<and> d_le s (Num 1))"
  by (auto simp: registry_ok_def)

lemma registry_ok_step:
  assumes "registry_ok hf" "higgs_interaction cmp xmv hf = Some (hf', errs)"
  shows "registry_ok hf'"
proof -
  have k: "point_count hf' = point_count hf" "length (points hf') = length (points hf)"
    "map fuzzy_score (points hf') = map fuzzy_score (points hf)"
    using higgs_interaction_keeps [OF assms(2), of "\<lambda>_. True"] by auto
  show ?thesis
    using assms(1) unfolding registry_ok_scores stored_scores_keep [OF k(1,3)] k(1,2) .
qed

lemma vector_magnitude_finite:
  assumes "\<not> isnan (vector_magnitude cs)" "\<not> isinf (vector_magnitude cs)"
  shows "\<exists>r\<ge>0. vector_magnitude cs = Num r"
  using assms unfolding vector_magnitude_def
  by (cases "foldl (\<lambda>s x. d_add s (d_mul x x)) (Num 0) (take TICKSTACK_DIM cs)")
     (auto split: if_splits)

lemma new_point_score_ge_0:
  assumes "\<not> isnan (vector_magnitude cs)" "\<not> isinf (vector_magnitude cs)"
    and "\<not> d_lt m (Num 0)"
  shows "d_le (Num 0) (fuzzy_score (new_point hf cs m tag))"
proof -
  obtain r where r: "0 \<le> r" "vector_magnitude cs = Num r"
    using vector_magnitude_finite [OF assms(1,2)] by blast
  have f: "0 \<le> r * HIGGS_ENERGY_FACTOR"
    using r(1) by (simp add: HIGGS_ENERGY_FACTOR_def)
  show ?thesis
    unfolding new_point_def Let_def
    using fuzzy_score_point_ge_0 [where e = "r * HIGGS_ENERGY_FACTOR"] f assms(3) r(2)
    by simp
qed

lemma higgs_run_keeps_order:
  "registry_ok hf \<Longrightarrow> higgs_run cmp xmv hf calls = Some hf' \<Longrightarrow> registry_ok hf'"
proof (induction calls arbitrary: hf)
  case Nil
  then show ?case by simp
next
  case (Cons c calls)
  show ?case
  proof (cases c)
    case (Insert crds m tag_p)
    then have "higgs_run cmp xmv (fst (add_higgs_point hf crds m tag_p)) calls = Some hf'"
      using Cons.prems(2) by simp
    then show ?thesis
      by (rule Cons.IH [OF registry_ok_add [OF Cons.prems(1)]])
  next
    case Step
    then obtain hf1 errs where 1: "higgs_interaction cmp xmv hf = Some (hf1, errs)"
      and 2: "higgs_run cmp xmv hf1 calls = Some hf'"
      using Cons.prems(2) by (cases "higgs_interaction cmp xmv hf") auto
    show ?thesis
      by (rule Cons.IH [OF registry_ok_step [OF Cons.prems(1) 1] 2])
  qed
qed

lemma higgs_run_keeps_sign:
  "registry_ok hf \<Longrightarrow> higgs_run cmp xmv hf calls = Some hf' \<Longrightarrow>
   list_all mass_not_negative calls \<Longrightarrow>
   \<forall>s\<in>set (map fuzzy_score (stored hf)). d_le (Num 0) s \<Longrightarrow>
   \<forall>s\<in>set (map fuzzy_score (stored hf')). d_le (Num 0) s"
proof (induction calls arbitrary: hf)
  case Nil
  then show ?case by simp
next
  case (Cons c calls)
  have rest: "list_all mass_not_negative calls"
    using Cons.prems(3) by simp
  show ?case
  proof (cases c)
    case (Insert crds m tag_p)
    let ?h = "fst (add_higgs_point hf crds m tag_p)"
    have m: "\<not> d_lt m (Num 0)" using Cons.prems(3) Insert by simp
    have run: "higgs_run cmp xmv ?h calls = Some hf'"
      using Cons.prems(2) Insert by simp
    have "\<forall>s\<in>set (map fuzzy_score (stored ?h)). d_le (Num 0) s"
      using add_higgs_point_result [OF Cons.prems(1), of crds m tag_p]
    proof (elim disjE exE conjE)
      assume "stored ?h = stored hf"
      then show ?thesis using Cons.prems(4) by simp
    next
      fix cs tag ys zs
      assume a: "\<not> isnan (vector_magnitude cs)" "\<not> isinf (vector_magnitude cs)"
        "stored hf = ys @ zs" "stored ?h = ys @ new_point hf cs m tag # zs"
      have "d_le (Num 0) (fuzzy_score (new_point hf cs m tag))"
        by (rule new_point_score_ge_0 [OF a(1,2) m])
      moreover have "\<forall>s\<in>set (map fuzzy_score (ys @ zs)). d_le (Num 0) s"
        using Cons.prems(4) unfolding a(3) .
      ultimately show ?thesis unfolding a(4) by simp
    qed
    then show ?thesis
      by (rule Cons.IH [OF registry_ok_add [OF Cons.prems(1)] run rest])
  next
    case Step
    then obtain hf1 errs where 1: "higgs_interaction cmp xmv hf = Some (hf1, errs)"
      and 2: "higgs_run cmp xmv hf1 calls = Some hf'"
      using Cons.prems(2) by (cases "higgs_interaction cmp xmv hf") auto
    have k: "point_count hf1 = point_count hf"
      "map fuzzy_score (points hf1) = map fuzzy_score (points hf)"
      using higgs_interaction_keeps [OF 1, of "\<lambda>_. True"] by auto
    have "\<forall>s\<in>set (map fuzzy_score (stored hf1)). d_le (Num 0) s"
      using Cons.prems(4) unfolding stored_scores_keep [OF k] .
    then show ?thesis
      by (rule Cons.IH [OF registry_ok_step [OF Cons.prems(1) 1] 2 rest])
  qed
qed

text \<open>
  C4, as amended.  After any sequence of insert and step calls on an initialised
  field that runs without the out-of-range read, every stored priority is a number, not
  NaN, of at most 1; it is at least 0 as well when no call inserted a negative mass.
  (\<^verbatim>\<open>add_higgs_point\<close> takes the mass as it comes, and half a negative mass is the
  smallest of the three factors.)
\<close>

theorem priorities_bounded:
  assumes "length (points raw) = HIGGS_FIELD_SIZE"
    and "higgs_run cmp xmv (init_higgs_field raw) calls = Some hf"
    and "p \<in> set (stored hf)"
  shows "\<not> isnan (fuzzy_score p) \<and> d_le (fuzzy_score p) (Num 1) \<and>
     (list_all mass_not_negative calls \<longrightarrow> d_le (Num 0) (fuzzy_score p))"
proof -
  have ok: "registry_ok (init_higgs_field raw)"
    by (rule registry_ok_init [OF assms(1)])
  have e: "stored (init_higgs_field raw) = []"
    by (simp add: stored_def init_higgs_field_def)
  have 1: "registry_ok hf"
    by (rule higgs_run_keeps_order [OF ok assms(2)])
  have 2: "d_le (Num 0) (fuzzy_score p)" if "list_all mass_not_negative calls"
    using higgs_run_keeps_sign [OF ok assms(2) that] assms(3) e by simp
  show ?thesis
    using 1 2 assms(3) by (simp add: registry_ok_def)
qed

lemma literal_count_PUSH_LITERAL:
  "literal_count (PUSH_LITERAL ts v) =
     (if TICKSTACK_SIZE \<le> literal_count ts then literal_count ts else Suc (literal_count ts))"
  by (simp add: PUSH_LITERAL_def literal_count_def)

lemma higgs_run_literals:
  assumes cmp: "\<forall>ts. literal_count ts \<le> literal_count (cmp ts)"
    and xmv: "\<forall>ts v. literal_count ts \<le> literal_count (xmv ts v)"
  shows "registry_ok hf \<Longrightarrow> higgs_run cmp xmv hf calls = Some hf' \<Longrightarrow>
    min (point_count hf) TICKSTACK_SIZE \<le> literal_count (tick_stack hf) \<Longrightarrow>
    min (point_count hf') TICKSTACK_SIZE \<le> literal_count (tick_stack hf')"
proof (induction calls arbitrary: hf)
  case Nil
  then show ?case by simp
next
  case (Cons c calls)
  show ?case
  proof (cases c)
    case (Insert crds m tag_p)
    let ?h = "fst (add_higgs_point hf crds m tag_p)"
    have "min (point_count ?h) TICKSTACK_SIZE \<le> literal_count (tick_stack ?h)"
      using add_higgs_point_result [OF Cons.prems(1), of crds m tag_p]
    proof (elim disjE exE conjE)
      assume "point_count ?h = point_count hf" "tick_stack ?h = tick_stack hf"
      then show ?thesis using Cons.prems(3) by simp
    next
      fix cs tag ys zs
      assume "point_count ?h = Suc (point_count hf)"
        "tick_stack ?h = PUSH_LITERAL (tick_stack hf) cs"
      then show ?thesis
        using Cons.prems(3) by (auto simp: literal_count_PUSH_LITERAL)
    qed
    moreover have "higgs_run cmp xmv ?h calls = Some hf'"
      using Cons.prems(2) Insert by simp
    ultimately show ?thesis
      using Cons.IH [OF registry_ok_add [OF Cons.prems(1)]] by blast
  next
    case Step
    then obtain hf1 errs where 1: "higgs_interaction cmp xmv hf = Some (hf1, errs)"
      and 2: "higgs_run cmp xmv hf1 calls = Some hf'"
      using Cons.prems(2) by (cases "higgs_interaction cmp xmv hf") auto
    have c1: "n \<le> literal_count (cmp ts)" if "n \<le> literal_count ts" for n ts
      using that cmp le_trans by blast
    have c2: "n \<le> literal_count (xmv ts v)" if "n \<le> literal_count ts" for n ts v
      using that xmv le_trans by blast
    have "point_count hf1 = point_count hf \<and>
      (min (point_count hf) TICKSTACK_SIZE \<le> literal_count (tick_stack hf) \<longrightarrow>
       min (point_count hf) TICKSTACK_SIZE \<le> literal_count (tick_stack hf1))"
      by (rule conjI)
         (use higgs_interaction_keeps [OF 1,
            of "\<lambda>ts. min (point_count hf) TICKSTACK_SIZE \<le> literal_count ts"] c1 c2
          in simp_all)
    then have "min (point_count hf1) TICKSTACK_SIZE \<le> literal_count (tick_stack hf1)"
      using Cons.prems(3) by simp
    then show ?thesis
      by (rule Cons.IH [OF registry_ok_step [OF Cons.prems(1) 1] 2])
  qed
qed

text \<open>
  C9.  In a state reached from an initialised field by insert and step calls, with
  fewer than two literals in the tick stack, \<^verbatim>\<open>higgs_interaction\<close> reports
  \<^verbatim>\<open>Invalid field or insufficient points in higgs_interaction\<close> and returns the field as
  it was.  The source tests the number of stored points; every accepted insert pushes
  one literal, and neither the recomputation of the topology nor \<^verbatim>\<open>X_MULTIVAR\<close> is
  taken to remove one, so fewer than two literals means fewer than two points.
\<close>

theorem step_without_two_literals:
  assumes "length (points raw) = HIGGS_FIELD_SIZE"
    and "\<forall>ts. literal_count ts \<le> literal_count (cmp ts)"
    and "\<forall>ts v. literal_count ts \<le> literal_count (xmv ts v)"
    and "higgs_run cmp xmv (init_higgs_field raw) calls = Some hf"
    and "literal_count (tick_stack hf) < 2"
  shows "higgs_interaction cmp xmv hf =
     Some (hf, [''Invalid field or insufficient points in higgs_interaction''])"
proof -
  have ok: "registry_ok (init_higgs_field raw)"
    by (rule registry_ok_init [OF assms(1)])
  have "min (point_count hf) TICKSTACK_SIZE \<le> literal_count (tick_stack hf)"
    using higgs_run_literals [OF assms(2,3) ok assms(4)]
    by (simp add: init_higgs_field_def)
  then have "point_count hf < 2"
    using assms(5) by (simp add: TICKSTACK_SIZE_def)
  then show ?thesis by (simp add: higgs_interaction_def)
qed

subsection \<open>What a step changes\<close>

text \<open>The loop with an anchor that \<open>X_MULTIVAR\<close> leaves in place.\<close>

lemma interaction_loop_anchor:
  assumes a: "anchor (tick_stack hf) = Some (delta, harmonic)"
    and x: "\<forall>ts v. anchor (xmv ts v) = anchor ts"
    and k: "k \<le> length (points hf)"
  shows "\<exists>hf'. foldl (interaction_body xmv) (Some (hf, errs)) [0..<k] =
       Some (hf', errs @ concat (map (\<lambda>p.
          if \<not> d_lt (fuzzy_score p) (Num FUZZY_CONFIDENCE_THRESHOLD) \<and>
             (isnan delta \<or> isinf delta \<or> isnan harmonic \<or> isinf harmonic)
          then [''Numerical instability in higgs_interaction''] else []) (take k (points hf)))) \<and>
     points hf' = map (interact_point (coupling_factor hf) delta harmonic) (take k (points hf))
                  @ drop k (points hf) \<and>
     point_count hf' = point_count hf \<and> coupling_factor hf' = coupling_factor hf \<and>
     anchor (tick_stack hf') = Some (delta, harmonic)"
  using k
proof (induction k)
  case 0
  then show ?case using a by simp
next
  case (Suc k)
  let ?rep = "\<lambda>p. if \<not> d_lt (fuzzy_score p) (Num FUZZY_CONFIDENCE_THRESHOLD) \<and>
             (isnan delta \<or> isinf delta \<or> isnan harmonic \<or> isinf harmonic)
          then [''Numerical instability in higgs_interaction''] else []"
  let ?f = "interact_point (coupling_factor hf) delta harmonic"
  from Suc obtain hf1 where
    1: "foldl (interaction_body xmv) (Some (hf, errs)) [0..<k] =
          Some (hf1, errs @ concat (map ?rep (take k (points hf))))"
    and 2: "points hf1 = map ?f (take k (points hf)) @ drop k (points hf)"
    and 3: "point_count hf1 = point_count hf" "coupling_factor hf1 = coupling_factor hf"
      "anchor (tick_stack hf1) = Some (delta, harmonic)"
    by auto
  have lt: "k < length (points hf)" using Suc.prems by simp
  have tk: "take (Suc k) (points hf) = take k (points hf) @ [points hf ! k]"
    using lt by (simp add: take_Suc_conv_app_nth)
  have dr: "drop k (points hf) = points hf ! k # drop (Suc k) (points hf)"
    using lt by (simp add: Cons_nth_drop_Suc)
  have nk: "points hf1 ! k = points hf ! k"
    unfolding 2 using lt by (simp add: nth_append)
  have up: "(points hf1)[k := q] = map ?f (take k (points hf)) @ q # drop (Suc k) (points hf)" for q
    unfolding 2 dr using lt by (simp add: list_update_append)
  define hf2 where "hf2 = (if d_lt (fuzzy_score (points hf ! k)) (Num FUZZY_CONFIDENCE_THRESHOLD)
        \<or> isnan delta \<or> isinf delta \<or> isnan harmonic \<or> isinf harmonic then hf1
      else hf1\<lparr>points := (points hf1)[k := ?f (points hf ! k)],
               tick_stack := xmv (tick_stack hf1) (Num 8)\<rparr>)"
  have body: "interaction_body xmv (Some (hf1, errs @ concat (map ?rep (take k (points hf))))) k
      = Some (hf2, errs @ concat (map ?rep (take (Suc k) (points hf))))"
    unfolding interaction_body_unfold nk 3 tk hf2_def
    by (simp add: interact_point_def)
  have pts: "points hf2 = map ?f (take (Suc k) (points hf)) @ drop (Suc k) (points hf)"
    unfolding hf2_def tk using up [of "?f (points hf ! k)"] 2 dr
    by (auto simp: interact_point_def)
  have rest: "point_count hf2 = point_count hf" "coupling_factor hf2 = coupling_factor hf"
    "anchor (tick_stack hf2) = Some (delta, harmonic)"
    using 3 x by (simp_all add: hf2_def)
  have "foldl (interaction_body xmv) (Some (hf, errs)) [0..<Suc k] =
      Some (hf2, errs @ concat (map ?rep (take (Suc k) (points hf))))"
    using 1 body by simp
  then show ?case using pts rest by blast
qed


lemma higgs_interaction_result:
  assumes n: "2 \<le> point_count hf" "point_count hf \<le> length (points hf)"
    and a: "anchor (cmp (tick_stack hf)) = Some (delta, harmonic)"
    and x: "\<forall>ts v. anchor (xmv ts v) = anchor ts"
  shows "\<exists>hf'. higgs_interaction cmp xmv hf =
       Some (hf', concat (map (\<lambda>p.
          if \<not> d_lt (fuzzy_score p) (Num FUZZY_CONFIDENCE_THRESHOLD) \<and>
             (isnan delta \<or> isinf delta \<or> isnan harmonic \<or> isinf harmonic)
          then [''Numerical instability in higgs_interaction''] else []) (stored hf))) \<and>
     coupling_factor hf' = d_mul (Num HIGGS_COUPLING_BASE) (monitor_field_stability hf) \<and>
     point_count hf' = point_count hf \<and>
     stored hf' = map (interact_point (coupling_factor hf') delta harmonic) (stored hf) \<and>
     drop (point_count hf) (points hf') = drop (point_count hf) (points hf)"
proof -
  define hf2 where "hf2 = hf\<lparr>coupling_factor :=
      d_mul (Num HIGGS_COUPLING_BASE) (monitor_field_stability hf),
      tick_stack := cmp (tick_stack hf)\<rparr>"
  have a2: "anchor (tick_stack hf2) = Some (delta, harmonic)"
    and k: "point_count hf \<le> length (points hf2)"
    using a n(2) by (simp_all add: hf2_def)
  obtain hf' where h: "foldl (interaction_body xmv) (Some (hf2, [])) [0..<point_count hf] =
       Some (hf', [] @ concat (map (\<lambda>p.
          if \<not> d_lt (fuzzy_score p) (Num FUZZY_CONFIDENCE_THRESHOLD) \<and>
             (isnan delta \<or> isinf delta \<or> isnan harmonic \<or> isinf harmonic)
          then [''Numerical instability in higgs_interaction''] else [])
          (take (point_count hf) (points hf2))))"
     "points hf' = map (interact_point (coupling_factor hf2) delta harmonic)
                     (take (point_count hf) (points hf2))
                  @ drop (point_count hf) (points hf2)"
     "point_count hf' = point_count hf2" "coupling_factor hf' = coupling_factor hf2"
    using interaction_loop_anchor [OF a2 x k, of "[]"] by blast
  have run: "higgs_interaction cmp xmv hf =
      foldl (interaction_body xmv) (Some (hf2, [])) [0..<point_count hf]"
    using n(1) by (simp add: higgs_interaction_def Let_def hf2_def)
  have p2: "points hf2 = points hf" "point_count hf2 = point_count hf"
    "coupling_factor hf2 = d_mul (Num HIGGS_COUPLING_BASE) (monitor_field_stability hf)"
    by (simp_all add: hf2_def)
  have st: "stored hf' = map (interact_point (coupling_factor hf') delta harmonic) (stored hf)"
    using n(2) unfolding stored_def h(2,3,4) p2 by simp
  have dr: "drop (point_count hf) (points hf') = drop (point_count hf) (points hf)"
    using n(2) unfolding h(2) p2 by simp
  show ?thesis
    using h(1,3,4) st dr unfolding run p2 stored_def by auto
qed

subsection \<open>Every sequence of calls runs\<close>

text \<open>
  With the topology of spec 4.2, whatever its phase and harmonic factor, and an
  \<^verbatim>\<open>X_MULTIVAR\<close> that leaves the literals and the anchor in place, no sequence of
  insert and step calls on an initialised field reaches the out-of-range read.
\<close>

lemma foldl_squares_Num:
  "foldl (\<lambda>s x. d_add s (d_mul x x)) a xs = Num r \<Longrightarrow>
   (\<exists>a'. a = Num a') \<and> finite_vector xs"
proof (induction xs arbitrary: a r)
  case Nil
  then show ?case by (simp add: finite_vector_def)
next
  case (Cons x xs)
  then have "(\<exists>a'. d_add a (d_mul x x) = Num a') \<and> finite_vector xs" by simp
  then show ?case
    by (cases a; cases x) (auto simp: finite_vector_def signed_inf_def split: if_splits)
qed

lemma finite_magnitude_finite_vector:
  assumes "\<not> isnan (vector_magnitude cs)" "\<not> isinf (vector_magnitude cs)"
  shows "finite_vector (take TICKSTACK_DIM cs)"
proof -
  obtain r where "foldl (\<lambda>s x. d_add s (d_mul x x)) (Num 0) (take TICKSTACK_DIM cs) = Num r"
    using assms unfolding vector_magnitude_def
    by (cases "foldl (\<lambda>s x. d_add s (d_mul x x)) (Num 0) (take TICKSTACK_DIM cs)") auto
  then show ?thesis using foldl_squares_Num by blast
qed

text \<open>
  The invariant that keeps the read of record 0 in range: the literals are finite
  vectors, one for each stored point up to the capacity of the tick stack.
\<close>

lemma literals_PUSH_LITERAL:
  assumes "list_all (\<lambda>l. finite_vector (coords l)) (literals ts)"
    and "\<not> isnan (vector_magnitude cs)" "\<not> isinf (vector_magnitude cs)"
  shows "list_all (\<lambda>l. finite_vector (coords l)) (literals (PUSH_LITERAL ts cs))"
  using assms(1) finite_magnitude_finite_vector [OF assms(2,3)]
  by (simp add: PUSH_LITERAL_def)

lemma spec_topology_anchor:
  assumes "2 \<le> literal_count ts" "list_all (\<lambda>l. finite_vector (coords l)) (literals ts)"
  shows "\<exists>d h. anchor (compute_multivar_delta_topology harmonic_of phase_of ts) = Some (d, h)"
proof -
  obtain l1 l2 rest where l: "literals ts = l1 # l2 # rest"
    using assms(1) unfolding literal_count_def
    by (cases "literals ts"; cases "tl (literals ts)") auto
  show ?thesis
    using assms(2) unfolding l
    by (simp add: anchor_def compute_multivar_delta_topology_def l)
qed

lemma higgs_run_defined:
  assumes x: "\<forall>ts v. literals (xmv ts v) = literals ts" "\<forall>ts v. anchor (xmv ts v) = anchor ts"
  shows "registry_ok hf \<Longrightarrow>
    list_all (\<lambda>l. finite_vector (coords l)) (literals (tick_stack hf)) \<Longrightarrow>
    min (point_count hf) TICKSTACK_SIZE \<le> literal_count (tick_stack hf) \<Longrightarrow>
    \<exists>hf'. higgs_run (compute_multivar_delta_topology harmonic_of phase_of) xmv hf calls = Some hf'"
proof (induction calls arbitrary: hf)
  case Nil
  then show ?case by simp
next
  case (Cons c calls)
  let ?cmp = "compute_multivar_delta_topology harmonic_of phase_of"
  show ?case
  proof (cases c)
    case (Insert crds m tag_p)
    let ?h = "fst (add_higgs_point hf crds m tag_p)"
    have "list_all (\<lambda>l. finite_vector (coords l)) (literals (tick_stack ?h)) \<and>
          min (point_count ?h) TICKSTACK_SIZE \<le> literal_count (tick_stack ?h)"
      using add_higgs_point_result [OF Cons.prems(1), of crds m tag_p]
    proof (elim disjE exE conjE)
      assume "point_count ?h = point_count hf" "tick_stack ?h = tick_stack hf"
      then show ?thesis using Cons.prems(2,3) by simp
    next
      fix cs tag ys zs
      assume a: "point_count ?h = Suc (point_count hf)"
        "tick_stack ?h = PUSH_LITERAL (tick_stack hf) cs"
        "\<not> isnan (vector_magnitude cs)" "\<not> isinf (vector_magnitude cs)"
      show ?thesis
        unfolding a(1,2)
        using Cons.prems(3) literals_PUSH_LITERAL [OF Cons.prems(2) a(3,4)]
        by (auto simp: literal_count_PUSH_LITERAL)
    qed
    then have "\<exists>hf'. higgs_run ?cmp xmv ?h calls = Some hf'"
      by (intro Cons.IH registry_ok_add [OF Cons.prems(1)]) simp_all
    then show ?thesis using Insert by simp
  next
    case Step
    have "\<exists>hf1 errs. higgs_interaction ?cmp xmv hf = Some (hf1, errs)"
    proof (cases "point_count hf < 2")
      case True
      then show ?thesis by (simp add: higgs_interaction_def)
    next
      case False
      then have n: "2 \<le> point_count hf" "point_count hf \<le> length (points hf)"
        using Cons.prems(1) by (simp_all add: registry_ok_def)
      have "2 \<le> literal_count (tick_stack hf)"
        using n(1) Cons.prems(3) by (simp add: TICKSTACK_SIZE_def)
      then obtain d h where "anchor (?cmp (tick_stack hf)) = Some (d, h)"
        using spec_topology_anchor [OF _ Cons.prems(2)] by blast
      with n have "\<exists>hf'. higgs_interaction ?cmp xmv hf =
         Some (hf', concat (map (\<lambda>p.
          if \<not> d_lt (fuzzy_score p) (Num FUZZY_CONFIDENCE_THRESHOLD) \<and>
             (isnan d \<or> isinf d \<or> isnan h \<or> isinf h)
          then [''Numerical instability in higgs_interaction''] else []) (stored hf))) \<and>
         coupling_factor hf' = d_mul (Num HIGGS_COUPLING_BASE) (monitor_field_stability hf) \<and>
         point_count hf' = point_count hf \<and>
         stored hf' = map (interact_point (coupling_factor hf') d h) (stored hf) \<and>
         drop (point_count hf) (points hf') = drop (point_count hf) (points hf)"
        using x(2) by (intro higgs_interaction_result) 
      then show ?thesis by blast
    qed
    then obtain hf1 errs where 1: "higgs_interaction ?cmp xmv hf = Some (hf1, errs)"
      by blast
    have k: "point_count hf1 = point_count hf"
      "literals (tick_stack hf) = literals (tick_stack hf) \<longrightarrow>
       literals (tick_stack hf1) = literals (tick_stack hf)"
      using higgs_interaction_keeps [OF 1,
          of "\<lambda>ts. literals ts = literals (tick_stack hf)"] x(1)
      by (simp_all add: compute_multivar_delta_topology_def)
    have "\<exists>hf'. higgs_run ?cmp xmv hf1 calls = Some hf'"
      using Cons.prems(2,3) k
      by (intro Cons.IH registry_ok_step [OF Cons.prems(1) 1]) (simp_all add: literal_count_def)
    then show ?thesis using Step 1 by simp
  qed
qed

lemma higgs_run_from_init_defined:
  assumes "length (points raw) = HIGGS_FIELD_SIZE"
    and "\<forall>ts v. literals (xmv ts v) = literals ts" "\<forall>ts v. anchor (xmv ts v) = anchor ts"
  shows "\<exists>hf'. higgs_run (compute_multivar_delta_topology harmonic_of phase_of) xmv
           (init_higgs_field raw) calls = Some hf'"
proof (rule higgs_run_defined [OF assms(2,3)])
  show "registry_ok (init_higgs_field raw)"
    by (rule registry_ok_init [OF assms(1)])
  show "list_all (\<lambda>l. finite_vector (coords l)) (literals (tick_stack (init_higgs_field raw)))"
    by (simp add: init_higgs_field_def init_multivar_tickstack_def)
  show "min (point_count (init_higgs_field raw)) TICKSTACK_SIZE
        \<le> literal_count (tick_stack (init_higgs_field raw))"
    by (simp add: init_higgs_field_def)
qed


subsection \<open>The step on two literals or more\<close>


subsection \<open>The anchor of two opposite literals\<close>

lemma map2_axis:
  "map2 d_sub (axis_vector x) (axis_vector y) = axis_vector (x - y)"
  by (simp add: axis_vector_def d_sub_def)

lemma finite_axis: "finite_vector (axis_vector x)"
  by (simp add: finite_vector_def axis_vector_def list_all_iff)

lemma take_11_axis: "take 11 (axis_vector x) = axis_vector x"
  by (simp add: axis_vector_def)

lemma reference_anchor:
  assumes "literals ts = []"
  shows "anchor (reference_topology
      (PUSH_LITERAL (PUSH_LITERAL ts (axis_vector x)) (axis_vector y)))
    = Some (Num \<bar>y - x\<bar>, Num (\<bar>y - x\<bar> * TICKSTACK_PHI))"
  using assms
  by (simp add: anchor_def reference_topology_def compute_multivar_delta_topology_def
      PUSH_LITERAL_def literal_count_def TICKSTACK_SIZE_def TICKSTACK_DIM_def
      delta_record_def Let_def map2_axis finite_axis vector_magnitude_axis golden_harmonic_def
      take_11_axis)

subsection \<open>Worked steps\<close>

lemma insert_axis_point:
  assumes ok: "registry_ok hf" and room: "point_count hf < HIGGS_FIELD_SIZE"
    and lev: "\<forall>p\<in>set (stored hf). energy p = Num (\<bar>x\<bar> * HIGGS_ENERGY_FACTOR)"
    and sz: "\<bar>x\<bar> \<le> 1000"
  shows "stored (fst (add_higgs_point hf (Some (axis_vector x)) m (Some tag))) =
     rev (bubble (axis_point x m tag) (rev (stored hf)))"
  unfolding axis_point_def by (rule insert_axis(3) [OF assms])

lemma axis_point_fields [simp]:
  "energy (axis_point x m tag) = Num (\<bar>x\<bar> * HIGGS_ENERGY_FACTOR)"
  "mass (axis_point x m tag) = m"
  "insert_id (axis_point x m tag) = take 31 tag"
  by (simp_all add: axis_point_def)

lemma one_point_state:
  "registry_ok (one_point m)" "point_count (one_point m) = 1"
  "stored (one_point m) = [axis_point 11 m ''a'']"
  "tick_stack (one_point m) =
     PUSH_LITERAL (tick_stack (init_higgs_field zero_field)) (axis_vector 11)"
  "coupling_factor (one_point m) = Num HIGGS_COUPLING_BASE"
proof -
  define h0 where "h0 = init_higgs_field zero_field"
  have e: "one_point m = fst (add_higgs_point h0 (Some (axis_vector 11)) m (Some ''a''))"
    by (simp add: one_point_def insert_all_def h0_def)
  have ok0: "registry_ok h0" unfolding h0_def by (rule init_zero_ok)
  have s0: "stored h0 = []" "point_count h0 = 0" "coupling_factor h0 = Num HIGGS_COUPLING_BASE"
    by (simp_all add: h0_def stored_def init_higgs_field_def)
  have r: "point_count h0 < HIGGS_FIELD_SIZE"
    by (simp add: s0 HIGGS_FIELD_SIZE_def)
  have es: "\<forall>p\<in>set (stored h0). energy p = Num (\<bar>11\<bar> * HIGGS_ENERGY_FACTOR)"
    by (simp add: s0)
  have v: "\<bar>11 :: real\<bar> \<le> 1000" by simp
  show "registry_ok (one_point m)" unfolding e by (rule registry_ok_add [OF ok0])
  show "point_count (one_point m) = 1"
    unfolding e using insert_axis(2) [OF ok0 r es v] s0 by simp
  show "stored (one_point m) = [axis_point 11 m ''a'']"
    unfolding e using insert_axis_point [OF ok0 r es v] s0 by simp
  show "tick_stack (one_point m) =
     PUSH_LITERAL (tick_stack (init_higgs_field zero_field)) (axis_vector 11)"
    unfolding e using insert_axis(4) [OF ok0 r es v] by (simp add: h0_def)
  show "coupling_factor (one_point m) = Num HIGGS_COUPLING_BASE"
    unfolding e using insert_axis(5) [OF ok0 r es v] s0 by simp
qed

lemma two_points_state:
  "registry_ok (two_points m1 m2)" "point_count (two_points m1 m2) = 2"
  "stored (two_points m1 m2) =
     rev (bubble (axis_point (- 11) m2 ''b'') [axis_point 11 m1 ''a''])"
  "tick_stack (two_points m1 m2) =
     PUSH_LITERAL (PUSH_LITERAL (tick_stack (init_higgs_field zero_field)) (axis_vector 11))
       (axis_vector (- 11))"
  "coupling_factor (two_points m1 m2) = Num HIGGS_COUPLING_BASE"
proof -
  have e: "two_points m1 m2 =
      fst (add_higgs_point (one_point m1) (Some (axis_vector (- 11))) m2 (Some ''b''))"
    by (simp add: two_points_def one_point_def insert_all_def)
  note s = one_point_state [of m1]
  have r: "point_count (one_point m1) < HIGGS_FIELD_SIZE"
    by (simp add: s HIGGS_FIELD_SIZE_def)
  have es: "\<forall>p\<in>set (stored (one_point m1)). energy p = Num (\<bar>- 11\<bar> * HIGGS_ENERGY_FACTOR)"
    by (simp add: s)
  have v: "\<bar>- 11 :: real\<bar> \<le> 1000" by simp
  show "registry_ok (two_points m1 m2)" unfolding e by (rule registry_ok_add [OF s(1)])
  show "point_count (two_points m1 m2) = 2"
    unfolding e using insert_axis(2) [OF s(1) r es v] s by simp
  show "stored (two_points m1 m2) =
     rev (bubble (axis_point (- 11) m2 ''b'') [axis_point 11 m1 ''a''])"
    unfolding e using insert_axis_point [OF s(1) r es v] s by simp
  show "tick_stack (two_points m1 m2) =
     PUSH_LITERAL (PUSH_LITERAL (tick_stack (init_higgs_field zero_field)) (axis_vector 11))
       (axis_vector (- 11))"
    unfolding e using insert_axis(4) [OF s(1) r es v] s by simp
  show "coupling_factor (two_points m1 m2) = Num HIGGS_COUPLING_BASE"
    unfolding e using insert_axis(5) [OF s(1) r es v] s by simp
qed

lemma axis_point_scores:
  "fuzzy_score (axis_point 11 (Num 2) tag) = Num 1"
  "fuzzy_score (axis_point (- 11) (Num 2) tag) = Num 1"
  "fuzzy_score (axis_point (- 11) (Num 1) tag) = Num 0.4"
  "fuzzy_score (axis_point 11 NaN tag) = Num 1"
  "fuzzy_score (axis_point 11 (Num (- 2)) tag) = Num (- 0.8)"
  by (simp_all add: axis_point_def higgs_dampen_def d_gt_def FUZZY_CONFIDENCE_THRESHOLD_def)

lemma two_points_anchor:
  "anchor (reference_topology (tick_stack (two_points m1 m2)))
     = Some (Num 22, Num (22 * TICKSTACK_PHI))"
  unfolding two_points_state
  using reference_anchor [of "tick_stack (init_higgs_field zero_field)" 11 "- 11"]
  by (simp add: init_higgs_field_def init_multivar_tickstack_def)

lemma two_points_stability:
  "monitor_field_stability (two_points m1 m2) = Num 1"
proof -
  note s = two_points_state [of m1 m2]
  have le: "point_count (two_points m1 m2) \<le> length (points (two_points m1 m2))"
    using s(1) by (simp add: registry_ok_def)
  have es: "\<forall>p\<in>set (stored (two_points m1 m2)). energy p = Num (11 * HIGGS_ENERGY_FACTOR)"
    unfolding s(3) by auto
  show ?thesis
    using le es by (intro stability_level [where e = "11 * HIGGS_ENERGY_FACTOR"])
      (simp_all add: s(2) HIGGS_ENERGY_FACTOR_def)
qed


lemma no_literals: "literal_count (tick_stack (init_higgs_field raw)) = 0"
  by (simp add: init_higgs_field_def init_multivar_tickstack_def literal_count_def)

lemma idle_keeps_anchor: "\<forall>ts v. anchor (X_MULTIVAR_idle ts v) = anchor ts"
  by (simp add: X_MULTIVAR_idle_def)

text \<open>The step on two points at opposite positions, for any two masses.\<close>

lemma two_points_step:
  "\<exists>hf'. higgs_interaction reference_topology X_MULTIVAR_idle (two_points m1 m2) = Some (hf', []) \<and>
     coupling_factor hf' = Num HIGGS_COUPLING_BASE \<and>
     stored hf' = map (interact_point (Num HIGGS_COUPLING_BASE) (Num 22) (Num (22 * TICKSTACK_PHI)))
                      (stored (two_points m1 m2))"
proof -
  note s = two_points_state [of m1 m2]
  have n: "2 \<le> point_count (two_points m1 m2)"
    "point_count (two_points m1 m2) \<le> length (points (two_points m1 m2))"
    using s(1,2) by (simp_all add: registry_ok_def)
  have "\<exists>hf'. higgs_interaction reference_topology X_MULTIVAR_idle (two_points m1 m2) =
       Some (hf', concat (map (\<lambda>p.
          if \<not> d_lt (fuzzy_score p) (Num FUZZY_CONFIDENCE_THRESHOLD) \<and>
             (isnan (Num 22) \<or> isinf (Num 22) \<or> isnan (Num (22 * TICKSTACK_PHI))
              \<or> isinf (Num (22 * TICKSTACK_PHI)))
          then [''Numerical instability in higgs_interaction''] else [])
          (stored (two_points m1 m2)))) \<and>
     coupling_factor hf' = d_mul (Num HIGGS_COUPLING_BASE)
        (monitor_field_stability (two_points m1 m2)) \<and>
     point_count hf' = point_count (two_points m1 m2) \<and>
     stored hf' = map (interact_point (coupling_factor hf') (Num 22) (Num (22 * TICKSTACK_PHI)))
        (stored (two_points m1 m2)) \<and>
     drop (point_count (two_points m1 m2)) (points hf') =
       drop (point_count (two_points m1 m2)) (points (two_points m1 m2))"
    using n two_points_anchor [of m1 m2] idle_keeps_anchor
    by (rule higgs_interaction_result)
  then obtain hf' where h:
    "higgs_interaction reference_topology X_MULTIVAR_idle (two_points m1 m2) = Some (hf', [])"
    "coupling_factor hf' = Num HIGGS_COUPLING_BASE"
    "stored hf' = map (interact_point (coupling_factor hf') (Num 22) (Num (22 * TICKSTACK_PHI)))
        (stored (two_points m1 m2))"
    unfolding two_points_stability by auto
  show ?thesis
    using h(1,2) h(3) [unfolded h(2)] by (intro exI [of _ hf']) simp
qed




text \<open>
  C4 as stated fails on a negative mass: a point of mass \<open>-2\<close> is accepted and
  stored with the priority \<open>-0.8\<close>.
\<close>

theorem negative_mass_negative_priority:
  "map fuzzy_score (stored (one_point (Num (- 2)))) = [Num (- 0.8)] \<and>
   d_lt (Num (- 0.8)) (Num 0) \<and> \<not> d_le (Num 0) (Num (- 0.8))"
  by (simp add: one_point_state axis_point_scores d_le_def)

theorem priorities_bounded_witness:
  "\<exists>hf'. higgs_run reference_topology X_MULTIVAR_idle (init_higgs_field zero_field)
       [Insert (Some (axis_vector 11)) (Num 2) (Some ''a''),
        Insert (Some (axis_vector (- 11))) (Num 1) (Some ''b''), Step] = Some hf' \<and>
     map fuzzy_score (stored hf') = [Num 1, Num 0.4] \<and>
     list_all (\<lambda>p. d_le (Num 0) (fuzzy_score p) \<and> d_le (fuzzy_score p) (Num 1)) (stored hf')"
proof -
  let ?calls = "[Insert (Some (axis_vector 11)) (Num 2) (Some ''a''),
        Insert (Some (axis_vector (- 11))) (Num 1) (Some ''b''), Step]"
  obtain hf' where h:
    "higgs_interaction reference_topology X_MULTIVAR_idle (two_points (Num 2) (Num 1)) = Some (hf', [])"
    "stored hf' = map (interact_point (Num HIGGS_COUPLING_BASE) (Num 22) (Num (22 * TICKSTACK_PHI)))
                      (stored (two_points (Num 2) (Num 1)))"
    using two_points_step [of "Num 2" "Num 1"] by blast
  have run: "higgs_run reference_topology X_MULTIVAR_idle (init_higgs_field zero_field) ?calls
      = Some hf'"
    using h(1) by (simp add: two_points_def insert_all_def)
  have sc: "map fuzzy_score (stored hf') = [Num 1, Num 0.4]"
    unfolding h(2) two_points_state
    by (simp add: axis_point_scores d_gt_def interact_point_def FUZZY_CONFIDENCE_THRESHOLD_def)
  have len: "length (points zero_field) = HIGGS_FIELD_SIZE"
    by (simp add: zero_field_def HIGGS_FIELD_SIZE_def)
  have "d_le (Num 0) (fuzzy_score p) \<and> d_le (fuzzy_score p) (Num 1)" if "p \<in> set (stored hf')" for p
    using priorities_bounded [OF len run that] by simp
  then have "list_all (\<lambda>p. d_le (Num 0) (fuzzy_score p) \<and> d_le (fuzzy_score p) (Num 1)) (stored hf')"
    unfolding list_all_iff by blast
  then show ?thesis using run sc by (intro exI [of _ hf']) simp
qed

lemma reference_topology_literals:
  "\<forall>ts. literal_count ts \<le> literal_count (reference_topology ts)"
  by (simp add: reference_topology_def compute_multivar_delta_topology_def literal_count_def)

theorem step_without_two_literals_witness:
  "literal_count (tick_stack (one_point (Num 2))) = 1 \<and>
   higgs_interaction reference_topology X_MULTIVAR_idle (one_point (Num 2)) =
     Some (one_point (Num 2), [''Invalid field or insufficient points in higgs_interaction''])"
proof -
  have lc: "literal_count (tick_stack (one_point (Num 2))) = 1"
    unfolding one_point_state by (simp add: literal_count_PUSH_LITERAL TICKSTACK_SIZE_def no_literals)
  have len: "length (points zero_field) = HIGGS_FIELD_SIZE"
    by (simp add: zero_field_def HIGGS_FIELD_SIZE_def)
  have x: "\<forall>ts v. literal_count ts \<le> literal_count (X_MULTIVAR_idle ts v)"
    by (simp add: X_MULTIVAR_idle_def)
  have run: "higgs_run reference_topology X_MULTIVAR_idle (init_higgs_field zero_field)
      [Insert (Some (axis_vector 11)) (Num 2) (Some ''a'')] = Some (one_point (Num 2))"
    by (simp add: one_point_def insert_all_def)
  show ?thesis
    using step_without_two_literals [OF len reference_topology_literals x run] lc by simp
qed

section \<open>The deferred free stack\<close>

subsection \<open>The gate of the sweep\<close>

text \<open>
  \<^verbatim>\<open>monitor_memory_pressure\<close> answers 0.9 at most, and \<^verbatim>\<open>free_all_tickstack\<close> sweeps
  only above 0.9: the test never holds.
\<close>

lemma pressure_never_above_threshold:
  "\<not> d_gt (monitor_memory_pressure st) (Num MEMORY_PRESSURE_THRESHOLD)"
  by (simp add: monitor_memory_pressure_def MEMORY_PRESSURE_THRESHOLD_def d_gt_def)

lemma free_all_tickstack_defers:
  "free_all_tickstack st = st\<lparr>printed := printed st @ [Low_memory_pressure_deferring_cascade]\<rparr>"
  by (simp add: free_all_tickstack_def pressure_never_above_threshold)

lemma set_tick_insert: "set (tick_insert t ns) = insert t (set ns)"
  by (induction ns) auto

lemma tick_push_effect:
  assumes "p \<noteq> 0" "tick_count st < MAX_TICK_STACK"
  shows "tick_count (tick_push st p sz rc True) = Suc (tick_count st)"
    and "released (tick_push st p sz rc True) = released st"
    and "ptr ` set (tick_stack_g (tick_push st p sz rc True))
         = insert p (ptr ` set (tick_stack_g st))"
  using assms
  by (auto simp: tick_push_def Let_def set_tick_insert split: list.splits)

lemma submit_all_effect:
  "0 \<notin> set hs \<Longrightarrow> tick_count st + length hs \<le> MAX_TICK_STACK \<Longrightarrow>
   tick_count (submit_all hs sz rc st) = tick_count st + length hs \<and>
   released (submit_all hs sz rc st) = released st \<and>
   ptr ` set (tick_stack_g (submit_all hs sz rc st)) = set hs \<union> ptr ` set (tick_stack_g st)"
proof (induction hs arbitrary: st)
  case Nil
  then show ?case by (simp add: submit_all_def)
next
  case (Cons h hs)
  have h: "h \<noteq> 0" "tick_count st < MAX_TICK_STACK"
    using Cons.prems by auto
  have "submit_all (h # hs) sz rc st = submit_all hs sz rc (tick_push st h sz rc True)"
    by (simp add: submit_all_def)
  moreover have "0 \<notin> set hs"
    "tick_count (tick_push st h sz rc True) + length hs \<le> MAX_TICK_STACK"
    using Cons.prems tick_push_effect(1) [OF h] by auto
  ultimately show ?case
    using Cons.IH [of "tick_push st h sz rc True"] tick_push_effect [OF h, of sz rc]
    by auto
qed

text \<open>
  The sweep itself, were it ever entered: every non-NULL pointer of the chain goes to
  \<^verbatim>\<open>free\<close> once, in chain order, the double-free warning is never printed
  (\<^verbatim>\<open>is_valid_ptr\<close> repeats the NULL test made just before it), and a second sweep
  finds the empty chain.
\<close>

lemma cascade_walk_effect:
  "released (cascade_walk ts st) = released st @ filter (\<lambda>p. p \<noteq> 0) (map ptr ts) \<and>
   printed (cascade_walk ts st) = printed st"
  by (induction ts arbitrary: st) (auto simp: is_valid_ptr_def)

lemma tick_cascade_effect:
  "released (tick_cascade st) = released st @ filter (\<lambda>p. p \<noteq> 0) (map ptr (tick_stack_g st))"
  "tick_stack_g (tick_cascade st) = []"
  "tick_count (tick_cascade st) = 0"
  "tick_cascade (tick_cascade st) = tick_cascade st"
  by (simp_all add: tick_cascade_def cascade_walk_effect)

text \<open>
  C1.  The claim: a sweep requested while the pressure is at or above the threshold
  releases every pending handle once, empties the stack and resets the count, and a
  second request is a no-op.  What the code does: with 922 handles submitted the
  pressure is 0.9, which is the threshold, and \<^verbatim>\<open>free_all_tickstack\<close> tests
  \<^verbatim>\<open>0.9 > 0.9\<close>; it defers, releases nothing and keeps all 922 entries, at the first
  request and at the second.
\<close>

theorem free_all_tickstack_defers_at_threshold:
  "tick_count (submit_all [1..<923] 100 2 free_all_init) = 922 \<and>
   ptr ` set (tick_stack_g (submit_all [1..<923] 100 2 free_all_init)) = {1..<923} \<and>
   monitor_memory_pressure (submit_all [1..<923] 100 2 free_all_init) = Num 0.9 \<and>
   d_le (Num MEMORY_PRESSURE_THRESHOLD)
        (monitor_memory_pressure (submit_all [1..<923] 100 2 free_all_init)) \<and>
   released (free_all_tickstack (submit_all [1..<923] 100 2 free_all_init)) = [] \<and>
   tick_count (free_all_tickstack (submit_all [1..<923] 100 2 free_all_init)) = 922 \<and>
   released (free_all_tickstack (free_all_tickstack
      (submit_all [1..<923] 100 2 free_all_init))) = []"
proof -
  define st where "st = submit_all [1..<923] 100 2 free_all_init"
  have e: "tick_count st = 922" "released st = []"
    "ptr ` set (tick_stack_g st) = {1..<923}"
    using submit_all_effect [of "[1..<923]" free_all_init 100 2]
    by (simp_all add: st_def free_all_init_def MAX_TICK_STACK_def)
  have p: "monitor_memory_pressure st = Num 0.9"
    by (simp add: monitor_memory_pressure_def e MAX_TICK_STACK_def
        MEMORY_PRESSURE_THRESHOLD_def d_gt_def)
  have "tick_count st = 922 \<and> ptr ` set (tick_stack_g st) = {1..<923} \<and>
    monitor_memory_pressure st = Num 0.9 \<and>
    d_le (Num MEMORY_PRESSURE_THRESHOLD) (monitor_memory_pressure st) \<and>
    released (free_all_tickstack st) = [] \<and> tick_count (free_all_tickstack st) = 922 \<and>
    released (free_all_tickstack (free_all_tickstack st)) = []"
    by (simp add: e p free_all_tickstack_defers d_le_def MEMORY_PRESSURE_THRESHOLD_def)
  then show ?thesis unfolding st_def .
qed

subsection \<open>The two dampening rules\<close>

text \<open>
  Away from the threshold the registry's rule
  (\<^verbatim>\<open>score > 0.7 ? score : score * 0.8\<close>) and the stack's rule
  (\<^verbatim>\<open>if (score < 0.7) score *= 0.8\<close>) give the same result: below it both multiply
  by 0.8, above it both keep the score.
\<close>

lemma dampen_agree_off_threshold:
  "s \<noteq> Num FUZZY_CONFIDENCE_THRESHOLD \<Longrightarrow>
     higgs_dampen s = tick_dampen s \<and>
     (d_lt s (Num FUZZY_CONFIDENCE_THRESHOLD) \<longrightarrow> tick_dampen s = d_mul s (Num 0.8)) \<and>
     (d_gt s (Num FUZZY_CONFIDENCE_THRESHOLD) \<longrightarrow> tick_dampen s = s)"
  by (cases s) (auto simp: higgs_dampen_def tick_dampen_def d_gt_def signed_inf_def)

text \<open>
  C8.  The claim: the registry and the stack dampen under the same condition, a score
  under the threshold of 0.7, so that the two rules are one function of the combined
  score.  What the code does: \<^verbatim>\<open>fuzzy_score_point\<close> keeps a score only when it is
  above the threshold, and dampens the score of exactly 0.7, which is not under it, to
  0.56; \<^verbatim>\<open>tick_push\<close> keeps 0.7.  Both sides reach that score: a point of mass 1.4
  inserted into the empty registry is stored with the priority 0.56, and a pointer of
  2000 bytes and two references, submitted above the pressure mark, scores 0.7 and
  keeps it.
\<close>

theorem dampen_differs_at_threshold:
  "higgs_dampen (Num 0.7) = Num 0.56 \<and> tick_dampen (Num 0.7) = Num 0.7 \<and>
   higgs_dampen (Num 0.7) \<noteq> tick_dampen (Num 0.7) \<and>
   map fuzzy_score (stored (one_point (Num 1.4))) = [Num 0.56] \<and>
   fuzzy_score_ptr (submit_all [1..<923] 100 2 free_all_init) 923 2000 2 = Num 0.7 \<and>
   tick_dampen (fuzzy_score_ptr (submit_all [1..<923] 100 2 free_all_init) 923 2000 2) = Num 0.7"
proof -
  have c: "tick_count (submit_all [1..<923] 100 2 free_all_init) = 922"
    using submit_all_effect [of "[1..<923]" free_all_init 100 2]
    by (simp add: free_all_init_def MAX_TICK_STACK_def)
  have p: "fuzzy_score_ptr (submit_all [1..<923] 100 2 free_all_init) 923 2000 2 = Num 0.7"
    unfolding fuzzy_score_ptr_def monitor_memory_pressure_def c
    by (simp add: MAX_TICK_STACK_def MEMORY_PRESSURE_THRESHOLD_def d_gt_def)
  have r: "map fuzzy_score (stored (one_point (Num 1.4))) = [Num 0.56]"
    by (simp add: one_point_state axis_point_def higgs_dampen_def d_gt_def
        FUZZY_CONFIDENCE_THRESHOLD_def)
  show ?thesis
    unfolding p r
    by (simp add: higgs_dampen_def tick_dampen_def d_gt_def FUZZY_CONFIDENCE_THRESHOLD_def)
qed

end
